theory Spec2Isabelle
  imports Complex_Main "HOL-Library.Word"
begin

section \<open>The scrape route of \<^verbatim>\<open>src/app/page.tsx\<close>\<close>

text \<open>
  The second half of the source file (lines 192 to 380) is the server route: the helpers
  \<^verbatim>\<open>sanitize\<close>, \<^verbatim>\<open>isValidHttpUrl\<close>, \<^verbatim>\<open>withTimeout\<close>, \<^verbatim>\<open>navigateWithRetry\<close>,
  \<^verbatim>\<open>extractPageMetadata\<close> and the handler \<^verbatim>\<open>GET\<close>. Each is embedded below under its
  own name. The browser (Playwright), the \<^verbatim>\<open>URL\<close> constructor and the event loop are
  outside the file: they appear as parameters that say how each external call settles.
  The first half of the file is the client form, which is not modelled.
\<close>

subsection \<open>Strings\<close>

text \<open>
  A JavaScript string is a sequence of UTF-16 code units. \<^verbatim>\<open>ascii\<close> reads an ASCII
  literal as such a sequence.
\<close>

type_synonym js_string = "16 word list"

definition ascii :: "string \<Rightarrow> js_string" where
  "ascii s = map of_char s"

text \<open>
  The class \<^verbatim>\<open>\s\<close> of a regular expression without the \<^verbatim>\<open>u\<close> flag, which is
  also what \<^verbatim>\<open>String.prototype.trim\<close> strips: ECMAScript's WhiteSpace and
  LineTerminator code points (TAB, LF, VT, FF, CR, SP, NBSP, U+1680, U+2000 to U+200A,
  LS, PS, U+202F, U+205F, U+3000 and U+FEFF).
\<close>

definition isWhiteSpace :: "16 word \<Rightarrow> bool" where
  "isWhiteSpace c \<longleftrightarrow>
     c \<in> {0x09, 0x0A, 0x0B, 0x0C, 0x0D, 0x20, 0xA0, 0x1680,
          0x2000, 0x2001, 0x2002, 0x2003, 0x2004, 0x2005, 0x2006, 0x2007, 0x2008, 0x2009,
          0x200A, 0x2028, 0x2029, 0x202F, 0x205F, 0x3000, 0xFEFF}"

definition SP :: "16 word" where
  "SP = 0x20"

text \<open>
  \<^verbatim>\<open>.replace(/\s+/g, " ")\<close>: scanning from the left, every maximal run of
  white space is replaced by one space; every other code unit is copied.
\<close>

function replace_ws :: "js_string \<Rightarrow> js_string" where
  "replace_ws [] = []"
| "replace_ws (c # cs) =
     (if isWhiteSpace c then SP # replace_ws (dropWhile isWhiteSpace cs)
      else c # replace_ws cs)"
  by pat_completeness auto
termination
  by (relation "measure length") (auto simp: length_dropWhile_le less_Suc_eq_le)

text \<open>\<^verbatim>\<open>.trim()\<close>: white space is removed from both ends.\<close>

definition trim :: "js_string \<Rightarrow> js_string" where
  "trim s = rev (dropWhile isWhiteSpace (rev (dropWhile isWhiteSpace s)))"

text \<open>The right half of \<^verbatim>\<open>trim\<close>, \<^verbatim>\<open>.trimEnd()\<close>, for the proofs about \<^verbatim>\<open>trim\<close>.\<close>

definition trimEnd :: "js_string \<Rightarrow> js_string" where
  "trimEnd s = rev (dropWhile isWhiteSpace (rev s))"

text \<open>
  \<^verbatim>\<open>const sanitize = (value?: string | null) => (value ?? "").replace(/\s+/g, " ").trim()\<close>.
  \<open>None\<close> is \<^verbatim>\<open>null\<close> or \<^verbatim>\<open>undefined\<close>.
\<close>

definition sanitize :: "js_string option \<Rightarrow> js_string" where
  "sanitize v = trim (replace_ws (case v of None \<Rightarrow> [] | Some s \<Rightarrow> s))"

subsection \<open>Thrown values\<close>

text \<open>
  What an external call (the browser) may throw: an instance of \<^verbatim>\<open>Error\<close> with its
  message, or any other value. \<^verbatim>\<open>RequestTimeoutError\<close> is the class the file declares
  itself (line 204); it is not exported and only \<^verbatim>\<open>withTimeout\<close> constructs it.
\<close>

datatype ext_thrown = ErrorObject string | NonErrorValue

datatype thrown = RequestTimeoutError | Raised ext_thrown

fun instanceofError :: "ext_thrown \<Rightarrow> bool" where
  "instanceofError (ErrorObject m) = True"
| "instanceofError NonErrorValue = False"

subsection \<open>The browser, the loaded document and the observable effects\<close>

text \<open>
  \<^verbatim>\<open>PlaywrightResponse\<close> is read only through \<^verbatim>\<open>status()\<close>, so a response is the
  status it reports; \<open>None\<close> is the \<^verbatim>\<open>null\<close> that \<^verbatim>\<open>page.goto\<close> may return.
\<close>

type_synonym PlaywrightResponse = int

text \<open>
  The document as the callback of \<^verbatim>\<open>page.evaluate\<close> reads it. For each
  \<^verbatim>\<open>querySelector\<close> the outer option is the element (\<open>None\<close>: no match), the inner
  one what \<^verbatim>\<open>getAttribute("content")\<close> or \<^verbatim>\<open>textContent\<close> gives (\<open>None\<close>: null).
\<close>

record document =
  doc_title :: js_string
  meta_name_description :: "js_string option option"
  meta_property_og_description :: "js_string option option"
  first_h1 :: "js_string option option"

text \<open>
  How each call to the browser settles in one run: \<open>None\<close> (or \<open>Inr\<close>) is success,
  \<open>Some e\<close> (or \<open>Inl e\<close>) a rejection with \<open>e\<close>. \<open>goto n url\<close> is the outcome of the
  call number \<open>n\<close> (from 0) of \<^verbatim>\<open>page.goto\<close>.
\<close>

record browser =
  launch :: "ext_thrown option"
  newContext :: "ext_thrown option"
  newPage :: "ext_thrown option"
  goto :: "nat \<Rightarrow> js_string \<Rightarrow> ext_thrown + PlaywrightResponse option"
  waitForLoadState :: "ext_thrown option"
  evaluate :: "ext_thrown + document"
  close :: "ext_thrown option"

datatype console =
    NavigationAttemptFailed int
  | NetworkIdleTimeout
  | FailedToCloseBrowser ext_thrown
  | SuccessfullyScraped js_string
  | FailedFor js_string string

datatype effect =
    Launch | NewContext | NewPage | Goto js_string | WaitForLoadState | Evaluate | Close
  | ConsoleLog console | ConsoleError console

text \<open>The calls made so far: how often \<^verbatim>\<open>page.goto\<close> was invoked, and every effect in order.\<close>

record world =
  goto_calls :: nat
  trace :: "effect list"

definition world0 :: world where
  "world0 = \<lparr>goto_calls = 0, trace = []\<rparr>"

definition emit :: "effect \<Rightarrow> world \<Rightarrow> world" where
  "emit e w = w\<lparr>trace := trace w @ [e]\<rparr>"

subsection \<open>\<^verbatim>\<open>navigateWithRetry\<close> (lines 248 to 275)\<close>

text \<open>
  \<^verbatim>\<open>attempts\<close> is a TypeScript \<^verbatim>\<open>number\<close>: the finite values are modelled, as
  rationals, so that a call with a fractional count is a call of the model too.

  The counter \<^verbatim>\<open>attempt\<close> is a double that holds an integer, and \<^verbatim>\<open>attempt += 1\<close>
  is exact only below \<open>2^53\<close>: the sum \<open>2^53 + 1\<close> is not a double and rounds (ties
  to even) back to \<open>2^53\<close>, so a counter that has reached \<open>2^53\<close> stays there.
\<close>

definition increment :: "int \<Rightarrow> int" where
  "increment attempt = (if attempt < 2 ^ 53 then attempt + 1 else attempt)"

text \<open>
  The result says which statement ended the call: the \<^verbatim>\<open>return\<close> in the loop, the
  \<^verbatim>\<open>throw error\<close> in the loop, or the \<^verbatim>\<open>throw\<close> after the loop. The fourth value,
  \<open>StillLooping\<close>, is for a call that has not ended: an attempt has failed, it was not the
  last, and the counter no longer advances, so the source repeats the attempt for as long
  as \<^verbatim>\<open>page.goto\<close> throws. The model follows the loop up to that point and no further;
  it arises only for \<^verbatim>\<open>attempts\<close> above \<open>2^53\<close>.
\<close>

datatype nav_exit = ReturnInLoop | ThrowInLoop | ThrowAfterLoop | StillLooping

function navigate_loop ::
  "browser \<Rightarrow> js_string \<Rightarrow> rat \<Rightarrow> int \<Rightarrow> ext_thrown option \<Rightarrow> world
     \<Rightarrow> (ext_thrown + PlaywrightResponse option) \<times> nav_exit \<times> world" where
  "navigate_loop b url attempts attempt lastError w =
     (if of_int attempt \<le> attempts then
        (let w1 = emit (Goto url) (w\<lparr>goto_calls := goto_calls w + 1\<rparr>) in
         case goto b (goto_calls w) url of
           Inr response \<Rightarrow> (Inr response, ReturnInLoop, w1)
         | Inl error \<Rightarrow>
             (let w2 = (if of_int attempt < attempts
                        then emit (ConsoleLog (NavigationAttemptFailed attempt)) w1 else w1)
              in if of_int attempt = attempts then (Inl error, ThrowInLoop, w2)
                 else if increment attempt = attempt then (Inl error, StillLooping, w2)
                 else navigate_loop b url attempts (increment attempt) (Some error) w2))
      else
        (Inl (case lastError of
                None \<Rightarrow> ErrorObject ''Navigation failed''
              | Some e \<Rightarrow> if instanceofError e then e else ErrorObject ''Navigation failed''),
         ThrowAfterLoop, w))"
  by pat_completeness auto
termination
  by (relation "measure (\<lambda>(b, url, attempts, attempt, lastError, w).
        nat (\<lfloor>attempts\<rfloor> + 1 - attempt))")
    (auto simp: le_floor_iff increment_def split: if_splits)

definition navigateWithRetry ::
  "browser \<Rightarrow> js_string \<Rightarrow> rat \<Rightarrow> world
     \<Rightarrow> (ext_thrown + PlaywrightResponse option) \<times> nav_exit \<times> world" where
  "navigateWithRetry b url attempts w = navigate_loop b url attempts 1 None w"

subsection \<open>\<^verbatim>\<open>extractPageMetadata\<close> (lines 277 to 340)\<close>

text \<open>
  \<^verbatim>\<open>PageResponse\<close> is imported from \<^verbatim>\<open>@/types\<close>; its fields are those of the object
  returned at lines 327 to 332.
\<close>

record page_data =
  title :: js_string
  metaDescription :: js_string
  h1 :: js_string

record PageResponse = page_data +
  status :: int

text \<open>\<^verbatim>\<open>a ?? b\<close> and \<^verbatim>\<open>e?.m()\<close> on values that may be null.\<close>

definition nullish :: "'a option \<Rightarrow> 'a option \<Rightarrow> 'a option" where
  "nullish a b = (case a of None \<Rightarrow> b | Some x \<Rightarrow> Some x)"

definition optional_call :: "'a option option \<Rightarrow> 'a option" where
  "optional_call e = (case e of None \<Rightarrow> None | Some r \<Rightarrow> r)"

text \<open>
  The callback of \<^verbatim>\<open>page.evaluate\<close> (lines 308 to 325). \<^verbatim>\<open>document.title\<close> is a
  string, so its \<^verbatim>\<open>?? ""\<close> changes nothing.
\<close>

definition evaluate_callback :: "document \<Rightarrow> page_data" where
  "evaluate_callback d =
     \<lparr>title = doc_title d,
      metaDescription =
        (case nullish (nullish (optional_call (meta_name_description d))
                               (optional_call (meta_property_og_description d)))
                      (Some [])
         of Some s \<Rightarrow> s | None \<Rightarrow> []),
      h1 = (case nullish (optional_call (first_h1 d)) (Some []) of Some s \<Rightarrow> s | None \<Rightarrow> [])\<rparr>"

text \<open>The object returned at lines 327 to 332, from \<^verbatim>\<open>data\<close> and \<^verbatim>\<open>response\<close>.\<close>

definition page_response :: "page_data \<Rightarrow> PlaywrightResponse option \<Rightarrow> PageResponse" where
  "page_response data response =
     \<lparr>title = sanitize (Some (title data)),
      metaDescription = sanitize (Some (metaDescription data)),
      h1 = sanitize (Some (h1 data)),
      status = (case response of Some r \<Rightarrow> r | None \<Rightarrow> 200)\<rparr>"

text \<open>
  The body of the \<^verbatim>\<open>try\<close> once \<^verbatim>\<open>chromium.launch\<close> has given an instance
  (lines 294 to 332). The call \<^verbatim>\<open>navigateWithRetry(page, url)\<close> leaves \<^verbatim>\<open>attempts\<close>
  at its default, 2.
\<close>

definition with_instance :: "browser \<Rightarrow> js_string \<Rightarrow> world \<Rightarrow> (ext_thrown + PageResponse) \<times> world" where
  "with_instance b url w1 =
     (let w2 = emit NewContext w1 in
      case newContext b of
        Some e \<Rightarrow> (Inl e, w2)
      | None \<Rightarrow>
         (let w3 = emit NewPage w2 in
          case newPage b of
            Some e \<Rightarrow> (Inl e, w3)
          | None \<Rightarrow>
             (case navigateWithRetry b url 2 w3 of
                (Inl e, x, w4) \<Rightarrow> (Inl e, w4)
              | (Inr response, x, w4) \<Rightarrow>
                 (let w5 = emit WaitForLoadState w4;
                      w6 = (case waitForLoadState b of
                              None \<Rightarrow> w5
                            | Some e \<Rightarrow> emit (ConsoleLog NetworkIdleTimeout) w5);
                      w7 = emit Evaluate w6
                  in case evaluate b of
                       Inl e \<Rightarrow> (Inl e, w7)
                     | Inr d \<Rightarrow> (Inr (page_response (evaluate_callback d) response), w7)))))"

text \<open>
  The \<^verbatim>\<open>try\<close> block: the outcome, whether \<^verbatim>\<open>instance\<close> was assigned, and the
  effects.
\<close>

definition try_block :: "browser \<Rightarrow> js_string \<Rightarrow> world \<Rightarrow> (ext_thrown + PageResponse) \<times> bool \<times> world" where
  "try_block b url w0 =
     (let w1 = emit Launch w0 in
      case launch b of
        Some e \<Rightarrow> (Inl e, False, w1)
      | None \<Rightarrow> (case with_instance b url w1 of (r, w) \<Rightarrow> (r, True, w)))"

text \<open>
  The \<^verbatim>\<open>finally\<close> block (lines 333 to 339) runs after the \<^verbatim>\<open>try\<close> however it
  ended; it completes normally, so the outcome of the \<^verbatim>\<open>try\<close> is the outcome of the
  function.
\<close>

definition finally_block :: "browser \<Rightarrow> bool \<Rightarrow> world \<Rightarrow> world" where
  "finally_block b instance w =
     (if instance then
        (let w' = emit Close w in
         case close b of
           None \<Rightarrow> w'
         | Some err \<Rightarrow> emit (ConsoleError (FailedToCloseBrowser err)) w')
      else w)"

definition extractPageMetadata :: "browser \<Rightarrow> js_string \<Rightarrow> world \<Rightarrow> (ext_thrown + PageResponse) \<times> world" where
  "extractPageMetadata b url w0 =
     (case try_block b url w0 of (r, instance, w) \<Rightarrow> (r, finally_block b instance w))"

subsection \<open>\<^verbatim>\<open>withTimeout\<close> (lines 228 to 246)\<close>

text \<open>
  The promise that \<^verbatim>\<open>withTimeout\<close> returns, driven by what the event loop delivers:
  the timer's callback, or the settling of the wrapped promise (\<open>Inr\<close> a value, \<open>Inl\<close>
  a rejection). The state is the returned promise (\<open>None\<close> while pending), whether the
  timer is still scheduled, and whether the wrapped promise is still pending.
\<close>

datatype 'a event = TimerFires | OperationSettles "ext_thrown + 'a"

record 'a guard =
  outcome :: "(thrown + 'a) option"
  timer_armed :: bool
  operation_pending :: bool

text \<open>\<^verbatim>\<open>resolve\<close> and \<^verbatim>\<open>reject\<close> of a promise: only the first call settles it.\<close>

definition settle :: "thrown + 'a \<Rightarrow> 'a guard \<Rightarrow> 'a guard" where
  "settle s g = (case outcome g of None \<Rightarrow> g\<lparr>outcome := Some s\<rparr> | Some s' \<Rightarrow> g)"

definition clearTimeout :: "'a guard \<Rightarrow> 'a guard" where
  "clearTimeout g = g\<lparr>timer_armed := False\<rparr>"

fun step :: "'a event \<Rightarrow> 'a guard \<Rightarrow> 'a guard" where
  "step TimerFires g =
     (if timer_armed g then settle (Inl RequestTimeoutError) (g\<lparr>timer_armed := False\<rparr>) else g)"
| "step (OperationSettles (Inr v)) g =
     (if operation_pending g
      then settle (Inr v) (clearTimeout (g\<lparr>operation_pending := False\<rparr>)) else g)"
| "step (OperationSettles (Inl error)) g =
     (if operation_pending g
      then settle (Inl (Raised error)) (clearTimeout (g\<lparr>operation_pending := False\<rparr>)) else g)"

definition started :: "'a guard" where
  "started = \<lparr>outcome = None, timer_armed = True, operation_pending = True\<rparr>"

definition withTimeout :: "'a event list \<Rightarrow> 'a guard" where
  "withTimeout events = foldl (\<lambda>g e. step e g) started events"

subsection \<open>\<^verbatim>\<open>isValidHttpUrl\<close> (lines 219 to 226) and \<^verbatim>\<open>GET\<close> (lines 342 to 380)\<close>

text \<open>
  The parameter \<open>URL\<close> is the platform's constructor: \<open>URL v\<close> is the \<^verbatim>\<open>protocol\<close> of
  \<^verbatim>\<open>new URL(v)\<close>, and \<open>None\<close> when the constructor throws.
\<close>

definition isValidHttpUrl :: "(js_string \<Rightarrow> js_string option) \<Rightarrow> js_string \<Rightarrow> bool" where
  "isValidHttpUrl URL v =
     (case URL v of
        None \<Rightarrow> False
      | Some protocol \<Rightarrow> protocol \<in> set [ascii ''http:'', ascii ''https:''])"

datatype json = Payload PageResponse | ErrorJson string

record http_response =
  http_status :: int
  body :: json
  headers :: "(string \<times> string) list"

definition invalidUrlResponse :: http_response where
  "invalidUrlResponse = \<lparr>http_status = 400, body = ErrorJson ''Invalid URL'', headers = []\<rparr>"

definition timeoutResponse :: http_response where
  "timeoutResponse = \<lparr>http_status = 504, body = ErrorJson ''Timeout'', headers = []\<rparr>"

definition errorMessage :: "ext_thrown \<Rightarrow> string" where
  "errorMessage error = (case error of ErrorObject m \<Rightarrow> m | NonErrorValue \<Rightarrow> ''Unknown error'')"

text \<open>
  \<open>targetUrl\<close> is \<^verbatim>\<open>searchParams.get("url")\<close> (\<open>None\<close>: the parameter is missing).
  \<open>timer_first\<close> says whether the timer of \<^verbatim>\<open>REQUEST_TIMEOUT_MS\<close> fires before
  \<^verbatim>\<open>extractPageMetadata\<close> settles. The result is the response (\<open>None\<close> would be a
  handler that never answers) and the effects of the whole run, those of an extraction
  that outlives the response included. The durations in the log lines are left out.
\<close>

definition GET ::
  "(js_string \<Rightarrow> js_string option) \<Rightarrow> browser \<Rightarrow> bool \<Rightarrow> js_string option
     \<Rightarrow> http_response option \<times> effect list" where
  "GET URL b timer_first targetUrl =
     (case targetUrl of
        None \<Rightarrow> (Some invalidUrlResponse, [])
      | Some u \<Rightarrow>
         if u = [] \<or> \<not> isValidHttpUrl URL u then (Some invalidUrlResponse, [])
         else
          (case extractPageMetadata b u world0 of
             (r, w) \<Rightarrow>
              (case outcome (withTimeout (if timer_first then [TimerFires, OperationSettles r]
                                          else [OperationSettles r])) of
                 None \<Rightarrow> (None, trace w)
               | Some (Inr payload) \<Rightarrow>
                   (Some \<lparr>http_status = 200, body = Payload payload,
                          headers = [(''Cache-Control'',
                                      ''public, s-maxage=3600, stale-while-revalidate=86400'')]\<rparr>,
                    trace w @ [ConsoleLog (SuccessfullyScraped u)])
               | Some (Inl RequestTimeoutError) \<Rightarrow> (Some timeoutResponse, trace w)
               | Some (Inl (Raised error)) \<Rightarrow>
                   (Some \<lparr>http_status = 500, body = ErrorJson ''Unable to complete scrape'',
                          headers = []\<rparr>,
                    trace w @ [ConsoleError (FailedFor u (errorMessage error))]))))"

subsection \<open>What the specification calls whitespace-normalized\<close>

text \<open>
  These two definitions follow the words of the specification, not the code: a string
  is whitespace-normalized when it neither starts nor ends with white space, holds no
  two adjacent white-space code units, and every white-space code unit in it is a space;
  \<open>collapse\<close> is the normal form itself: the words of the string (its maximal runs
  without white space), joined by single spaces.
\<close>

fun adjacent_ws :: "js_string \<Rightarrow> bool" where
  "adjacent_ws (a # b # cs) = ((isWhiteSpace a \<and> isWhiteSpace b) \<or> adjacent_ws (b # cs))"
| "adjacent_ws cs = False"

definition whitespace_normalized :: "js_string \<Rightarrow> bool" where
  "whitespace_normalized s \<longleftrightarrow>
     (case s of [] \<Rightarrow> True | c # cs \<Rightarrow> \<not> isWhiteSpace c \<and> \<not> isWhiteSpace (last s))
     \<and> \<not> adjacent_ws s
     \<and> list_all (\<lambda>c. isWhiteSpace c \<longrightarrow> c = SP) s"

function ws_words :: "js_string \<Rightarrow> js_string list" where
  "ws_words s =
     (case dropWhile isWhiteSpace s of
        [] \<Rightarrow> []
      | c # cs \<Rightarrow>
          takeWhile (\<lambda>x. \<not> isWhiteSpace x) (c # cs)
            # ws_words (dropWhile (\<lambda>x. \<not> isWhiteSpace x) cs))"
  by pat_completeness auto
termination
proof (relation "measure length")
  show "wf (measure length)" by simp
next
  fix s :: js_string and c cs
  assume "dropWhile isWhiteSpace s = c # cs"
  then have "Suc (length cs) \<le> length s"
    using length_dropWhile_le [of isWhiteSpace s] by simp
  moreover have "length (dropWhile (\<lambda>x. \<not> isWhiteSpace x) cs) \<le> length cs"
    by (rule length_dropWhile_le)
  ultimately show "(dropWhile (\<lambda>x. \<not> isWhiteSpace x) cs, s) \<in> measure length"
    by simp
qed

fun join_sp :: "js_string list \<Rightarrow> js_string" where
  "join_sp [] = []"
| "join_sp [w] = w"
| "join_sp (w # v # ws) = w @ SP # join_sp (v # ws)"

definition collapse :: "js_string \<Rightarrow> js_string" where
  "collapse s = join_sp (ws_words s)"

subsection \<open>Stub browsers and pages for concrete runs\<close>

definition example_url :: js_string where
  "example_url = ascii ''https://example.com''"

text \<open>
  A stub of the \<^verbatim>\<open>URL\<close> constructor: a table of what the parser of the URL
  Standard gives on six inputs, and a rejection of every other string. The last two
  inputs are not valid URL strings, and the parser accepts them all the same: the missing
  \<^verbatim>\<open>//\<close> after a special scheme is tolerated; leading and trailing spaces are
  stripped, the scheme and host are lower-cased and the space in the path is escaped.
\<close>

definition stub_URL :: "js_string \<Rightarrow> js_string option" where
  "stub_URL = map_of
     [(ascii ''https://example.com'', ascii ''https:''),
      (ascii ''http://example.com'', ascii ''http:''),
      (ascii ''ftp://example.com'', ascii ''ftp:''),
      (ascii ''javascript:alert(1)'', ascii ''javascript:''),
      (ascii ''http:example.com'', ascii ''http:''),
      (ascii ''  HTTP://EXAMPLE.COM/a b'', ascii ''http:'')]"

text \<open>
  The page of the specification's scenario: title \<^verbatim>\<open>Example\<close>, no
  \<^verbatim>\<open>meta[name="description"]\<close>, an \<^verbatim>\<open>og:description\<close> with padded content, one
  \<^verbatim>\<open>h1\<close>.
\<close>

definition example_document :: document where
  "example_document =
     \<lparr>doc_title = ascii ''Example'',
      meta_name_description = None,
      meta_property_og_description = Some (Some (ascii ''  A   test site  '')),
      first_h1 = Some (Some (ascii ''Welcome''))\<rparr>"

text \<open>\<open>scripted rs\<close>: the successive calls of \<^verbatim>\<open>page.goto\<close> settle as \<open>rs\<close> lists, the last entry for good.\<close>

fun scripted ::
  "(ext_thrown + PlaywrightResponse option) list \<Rightarrow> nat \<Rightarrow> js_string
     \<Rightarrow> ext_thrown + PlaywrightResponse option" where
  "scripted [] n url = Inr None"
| "scripted [r] n url = r"
| "scripted (r # r' # rs) 0 url = r"
| "scripted (r # r' # rs) (Suc n) url = scripted (r' # rs) n url"

definition healthy :: browser where
  "healthy =
     \<lparr>launch = None, newContext = None, newPage = None,
      goto = scripted [Inr (Some 200)],
      waitForLoadState = None,
      evaluate = Inr example_document,
      close = None\<rparr>"

definition timeout_error :: ext_thrown where
  "timeout_error = ErrorObject ''Timeout 15000ms exceeded''"

section \<open>Properties\<close>

subsection \<open>The deadline guard\<close>

lemma step_idle: "\<not> timer_armed g \<Longrightarrow> \<not> operation_pending g \<Longrightarrow> step e g = g"
  by (cases "(e, g)" rule: step.cases) auto

lemma step_keeps_outcome: "outcome g = Some s \<Longrightarrow> outcome (step e g) = Some s"
  by (cases "(e, g)" rule: step.cases) (auto simp: settle_def clearTimeout_def)

lemma run_keeps_outcome:
  "outcome g = Some s \<Longrightarrow> outcome (foldl (\<lambda>g e. step e g) g es) = Some s"
  by (induction es arbitrary: g) (auto simp: step_keeps_outcome)

lemma run_idle:
  "\<not> timer_armed g \<Longrightarrow> \<not> operation_pending g \<Longrightarrow> foldl (\<lambda>g e. step e g) g es = g"
  by (induction es arbitrary: g) (auto simp: step_idle)

text \<open>
  C1. When the wrapped promise settles first, with a value or with an error, the
  returned promise takes that outcome unchanged and the timer is cleared, whatever the
  event loop delivers later. When the timer fires first, the returned promise is rejected
  with \<^verbatim>\<open>RequestTimeoutError\<close>, which no rejection of the wrapped promise equals, and
  nothing delivered later changes that; the wrapped operation is still pending after the
  timer has fired, and settles on its own later without effect on the returned promise.
\<close>

theorem withTimeout_race:
  "withTimeout (OperationSettles (Inr (v :: 'a)) # later)
     = \<lparr>outcome = Some (Inr v), timer_armed = False, operation_pending = False\<rparr>
   \<and> withTimeout (OperationSettles (Inl e) # later)
     = \<lparr>outcome = Some (Inl (Raised e)), timer_armed = False, operation_pending = False\<rparr>
   \<and> outcome (withTimeout (TimerFires # (later' :: 'a event list)))
     = Some (Inl RequestTimeoutError)
   \<and> RequestTimeoutError \<noteq> Raised e
   \<and> operation_pending (withTimeout ([TimerFires] :: 'a event list))
   \<and> withTimeout [TimerFires, OperationSettles (r :: ext_thrown + 'a)]
     = \<lparr>outcome = Some (Inl RequestTimeoutError), timer_armed = False,
        operation_pending = False\<rparr>"
proof -
  have ok: "withTimeout (OperationSettles (Inr v) # later)
     = \<lparr>outcome = Some (Inr v), timer_armed = False, operation_pending = False\<rparr>"
    by (simp add: withTimeout_def started_def settle_def clearTimeout_def run_idle)
  have err: "withTimeout (OperationSettles (Inl e) # later)
     = \<lparr>outcome = Some (Inl (Raised e)), timer_armed = False, operation_pending = False\<rparr>"
    by (simp add: withTimeout_def started_def settle_def clearTimeout_def run_idle)
  have fired: "outcome (withTimeout (TimerFires # later')) = Some (Inl RequestTimeoutError)"
    by (simp add: withTimeout_def started_def settle_def run_keeps_outcome)
  have pending: "operation_pending (withTimeout ([TimerFires] :: 'a event list))"
    by (simp add: withTimeout_def started_def settle_def)
  have late: "withTimeout [TimerFires, OperationSettles r]
     = \<lparr>outcome = Some (Inl RequestTimeoutError), timer_armed = False,
        operation_pending = False\<rparr>"
    by (cases r) (simp_all add: withTimeout_def started_def settle_def clearTimeout_def)
  from ok err fired pending late show ?thesis by simp
qed

theorem withTimeout_race_witness:
  "withTimeout [OperationSettles (Inr (200 :: int)), TimerFires]
     = \<lparr>outcome = Some (Inr 200), timer_armed = False, operation_pending = False\<rparr>
   \<and> withTimeout ([OperationSettles (Inl timeout_error), TimerFires] :: int event list)
     = \<lparr>outcome = Some (Inl (Raised timeout_error)), timer_armed = False,
        operation_pending = False\<rparr>
   \<and> outcome (withTimeout [TimerFires, OperationSettles (Inr (200 :: int))])
     = Some (Inl RequestTimeoutError)
   \<and> operation_pending (withTimeout ([TimerFires] :: int event list))"
  using withTimeout_race [of "200 :: int" "[TimerFires]" timeout_error
      "[OperationSettles (Inr 200)]" "Inr 200"]
  by simp

lemma withTimeout_fired:
  "outcome (withTimeout [TimerFires, OperationSettles r]) = Some (Inl RequestTimeoutError)"
  by (cases r) (simp_all add: withTimeout_def started_def settle_def clearTimeout_def)

lemma withTimeout_settled:
  "outcome (withTimeout [OperationSettles r])
     = Some (case r of Inr v \<Rightarrow> Inr v | Inl e \<Rightarrow> Inl (Raised e))"
  by (cases r) (simp_all add: withTimeout_def started_def settle_def clearTimeout_def)

subsection \<open>The navigation retrier\<close>

lemma navigate_twice:
  "navigateWithRetry b url 2 w =
     (case goto b (goto_calls w) url of
        Inr r1 \<Rightarrow>
          (Inr r1, ReturnInLoop,
           w\<lparr>goto_calls := goto_calls w + 1, trace := trace w @ [Goto url]\<rparr>)
      | Inl e1 \<Rightarrow>
          (goto b (goto_calls w + 1) url,
           (case goto b (goto_calls w + 1) url of Inr r2 \<Rightarrow> ReturnInLoop | Inl e2 \<Rightarrow> ThrowInLoop),
           w\<lparr>goto_calls := goto_calls w + 2,
             trace := trace w @ [Goto url, ConsoleLog (NavigationAttemptFailed 1), Goto url]\<rparr>))"
  by (simp add: navigateWithRetry_def navigate_loop.simps [of _ _ _ 1]
      navigate_loop.simps [of _ _ _ 2] increment_def emit_def Let_def split: sum.splits)

text \<open>
  C2. With two attempts allowed: if the first call of \<^verbatim>\<open>page.goto\<close> returns, its
  response (which may be null) is the result and \<^verbatim>\<open>page.goto\<close> was called once; if
  it throws, one line is logged and the second call follows directly; the result is then
  the second call's response, or the error the second call throws. No third call is
  made: the calls counted are one or two, and the effects are exactly those listed.
\<close>

theorem navigateWithRetry_two_attempts:
  "navigateWithRetry b url 2 w =
     (case goto b (goto_calls w) url of
        Inr r1 \<Rightarrow>
          (Inr r1, ReturnInLoop,
           w\<lparr>goto_calls := goto_calls w + 1, trace := trace w @ [Goto url]\<rparr>)
      | Inl e1 \<Rightarrow>
         (case goto b (goto_calls w + 1) url of
            Inr r2 \<Rightarrow>
              (Inr r2, ReturnInLoop,
               w\<lparr>goto_calls := goto_calls w + 2,
                 trace := trace w @ [Goto url, ConsoleLog (NavigationAttemptFailed 1), Goto url]\<rparr>)
          | Inl e2 \<Rightarrow>
              (Inl e2, ThrowInLoop,
               w\<lparr>goto_calls := goto_calls w + 2,
                 trace := trace w @ [Goto url, ConsoleLog (NavigationAttemptFailed 1), Goto url]\<rparr>)))"
  by (simp add: navigate_twice split: sum.splits)

theorem navigateWithRetry_two_attempts_witness:
  "navigateWithRetry (healthy\<lparr>goto := scripted [Inl timeout_error, Inr (Some 200)]\<rparr>)
      example_url 2 world0
     = (Inr (Some 200), ReturnInLoop,
        \<lparr>goto_calls = 2,
         trace = [Goto example_url, ConsoleLog (NavigationAttemptFailed 1), Goto example_url]\<rparr>)
   \<and> navigateWithRetry (healthy\<lparr>goto := scripted [Inl NonErrorValue, Inl timeout_error]\<rparr>)
      example_url 2 world0
     = (Inl timeout_error, ThrowInLoop,
        \<lparr>goto_calls = 2,
         trace = [Goto example_url, ConsoleLog (NavigationAttemptFailed 1), Goto example_url]\<rparr>)
   \<and> navigateWithRetry healthy example_url 2 world0
     = (Inr (Some 200), ReturnInLoop, \<lparr>goto_calls = 1, trace = [Goto example_url]\<rparr>)"
  using navigateWithRetry_two_attempts
      [of "healthy\<lparr>goto := scripted [Inl timeout_error, Inr (Some 200)]\<rparr>" example_url world0]
    navigateWithRetry_two_attempts
      [of "healthy\<lparr>goto := scripted [Inl NonErrorValue, Inl timeout_error]\<rparr>" example_url world0]
    navigateWithRetry_two_attempts [of healthy example_url world0]
  by (simp add: world0_def healthy_def)

text \<open>
  C9. With \<^verbatim>\<open>attempts < 1\<close> the loop body never runs: the world is returned as it
  was (no call of \<^verbatim>\<open>page.goto\<close>, no effect), and the statement after the loop throws
  an \<^verbatim>\<open>Error\<close> with the message \<^verbatim>\<open>Navigation failed\<close>.
\<close>

theorem navigateWithRetry_below_one:
  "attempts < 1 \<Longrightarrow>
     navigateWithRetry b url attempts w
       = (Inl (ErrorObject ''Navigation failed''), ThrowAfterLoop, w)"
  by (simp add: navigateWithRetry_def navigate_loop.simps [of _ _ _ 1])

theorem navigateWithRetry_below_one_witness:
  "(0 :: rat) < 1
   \<and> navigateWithRetry healthy example_url 0 world0
       = (Inl (ErrorObject ''Navigation failed''), ThrowAfterLoop, world0)
   \<and> goto_calls world0 = 0 \<and> trace world0 = []"
  using navigateWithRetry_below_one [of 0 healthy example_url world0]
  by (simp add: world0_def)

lemma navigate_loop_integer:
  "a \<le> n \<Longrightarrow> n \<le> 2 ^ 53 \<Longrightarrow> navigate_loop b url (of_int n) a le w = (r, x, w') \<Longrightarrow>
     \<exists>k. k \<le> nat (n - a) \<and> r = goto b (goto_calls w + k) url
        \<and> goto_calls w' = goto_calls w + k + 1
        \<and> (\<forall>j<k. isl (goto b (goto_calls w + j) url))
        \<and> (if isl r then x = ThrowInLoop \<and> k = nat (n - a) else x = ReturnInLoop)"
proof (induction b url "of_int n :: rat" a le w rule: navigate_loop.induct)
  case (1 b url a le w)
  show ?case
  proof (cases "goto b (goto_calls w) url")
    case (Inr response)
    with "1.prems" have "r = Inr response" "x = ReturnInLoop" "goto_calls w' = goto_calls w + 1"
      by (auto simp: navigate_loop.simps [of b url _ a] emit_def Let_def)
    with Inr show ?thesis by (intro exI [of _ 0]) simp
  next
    case (Inl error)
    show ?thesis
    proof (cases "a = n")
      case True
      with Inl "1.prems" have "r = Inl error" "x = ThrowInLoop" "goto_calls w' = goto_calls w + 1"
        by (auto simp: navigate_loop.simps [of b url _ a] emit_def Let_def)
      with Inl True show ?thesis by (intro exI [of _ 0]) simp
    next
      case False
      with "1.prems" have lt: "a < n" by simp
      with "1.prems" have step: "increment a = a + 1"
        by (simp add: increment_def)
      define w2 where "w2 = emit (ConsoleLog (NavigationAttemptFailed a))
          (emit (Goto url) (w\<lparr>goto_calls := goto_calls w + 1\<rparr>))"
      have calls: "goto_calls w2 = goto_calls w + 1"
        by (simp add: w2_def emit_def)
      from Inl lt step "1.prems"
      have rec: "navigate_loop b url (of_int n) (increment a) (Some error) w2 = (r, x, w')"
        by (simp add: navigate_loop.simps [of b url _ a] Let_def w2_def)
      have "\<exists>k. k \<le> nat (n - increment a) \<and> r = goto b (goto_calls w2 + k) url
        \<and> goto_calls w' = goto_calls w2 + k + 1
        \<and> (\<forall>j<k. isl (goto b (goto_calls w2 + j) url))
        \<and> (if isl r then x = ThrowInLoop \<and> k = nat (n - increment a) else x = ReturnInLoop)"
        using "1.hyps" [of "emit (Goto url) (w\<lparr>goto_calls := goto_calls w + 1\<rparr>)" error w2]
          Inl lt step rec "1.prems"(2) by (simp add: w2_def)
      then obtain k where k: "k \<le> nat (n - (a + 1))" "r = goto b (goto_calls w + 1 + k) url"
        "goto_calls w' = goto_calls w + 1 + k + 1"
        "\<forall>j<k. isl (goto b (goto_calls w + 1 + j) url)"
        "if isl r then x = ThrowInLoop \<and> k = nat (n - (a + 1)) else x = ReturnInLoop"
        unfolding calls step by blast
      have prev: "\<forall>j<Suc k. isl (goto b (goto_calls w + j) url)"
      proof (intro allI impI)
        fix j assume "j < Suc k"
        show "isl (goto b (goto_calls w + j) url)"
        proof (cases j)
          case 0
          with Inl show ?thesis by simp
        next
          case (Suc i)
          with \<open>j < Suc k\<close> k(4) show ?thesis by simp
        qed
      qed
      from k lt prev show ?thesis
        by (intro exI [of _ "Suc k"]) (auto split: if_splits)
    qed
  qed
qed

text \<open>
  Above \<open>2^53\<close> the counter cannot reach \<^verbatim>\<open>attempts\<close>: while every call of
  \<^verbatim>\<open>page.goto\<close> throws, the loop is never left.
\<close>

lemma navigate_loop_counter_stops:
  "\<forall>k. isl (goto b k url) \<Longrightarrow> 2 ^ 53 < attempts \<Longrightarrow> a \<le> 2 ^ 53 \<Longrightarrow>
     fst (snd (navigate_loop b url attempts a le w)) = StillLooping"
proof (induction b url attempts a le w rule: navigate_loop.induct)
  case (1 b url attempts a le w)
  from "1.prems"(1) obtain error where fails: "goto b (goto_calls w) url = Inl error"
    by (cases "goto b (goto_calls w) url") (auto dest: spec [of _ "goto_calls w"])
  from "1.prems"(2,3) have "of_int a \<le> (2 :: rat) ^ 53"
    by (metis of_int_le_iff of_int_numeral of_int_power)
  with "1.prems"(2) have below: "of_int a < attempts" by simp
  show ?case
  proof (cases "increment a = a")
    case True
    with fails below show ?thesis
      by (simp add: navigate_loop.simps [of b url attempts a] Let_def)
  next
    case False
    then have "increment a \<le> 2 ^ 53"
      by (simp add: increment_def split: if_splits)
    with "1.IH" [of "emit (Goto url) (w\<lparr>goto_calls := goto_calls w + 1\<rparr>)" error
        "emit (ConsoleLog (NavigationAttemptFailed a))
           (emit (Goto url) (w\<lparr>goto_calls := goto_calls w + 1\<rparr>))"]
      fails below False "1.prems"(1,2)
    show ?thesis
      by (simp add: navigate_loop.simps [of b url attempts a] Let_def)
  qed
qed

text \<open>
  C10, as amended. For every call with an integer \<^verbatim>\<open>attempts\<close> from 1 to \<open>2^53\<close>,
  the range in which the counter counts, the statement after the loop is not reached:
  the call ends inside the loop, either returning the response of one of at most
  \<^verbatim>\<open>attempts\<close> calls of \<^verbatim>\<open>page.goto\<close>, all earlier ones having thrown, or
  rethrowing the very value thrown by call number \<^verbatim>\<open>attempts\<close>.
\<close>

theorem navigateWithRetry_integer_attempts:
  "1 \<le> n \<Longrightarrow> n \<le> 2 ^ 53 \<Longrightarrow> navigateWithRetry b url (of_int n) w = (r, x, w') \<Longrightarrow>
     x \<noteq> ThrowAfterLoop
     \<and> (\<exists>k<nat n. r = goto b (goto_calls w + k) url
            \<and> goto_calls w' = goto_calls w + k + 1
            \<and> (\<forall>j<k. isl (goto b (goto_calls w + j) url))
            \<and> (if isl r then x = ThrowInLoop \<and> k = nat n - 1 else x = ReturnInLoop))"
proof -
  assume n: "1 \<le> n" and bound: "n \<le> 2 ^ 53"
    and run: "navigateWithRetry b url (of_int n) w = (r, x, w')"
  from run have "navigate_loop b url (of_int n) 1 None w = (r, x, w')"
    by (simp add: navigateWithRetry_def)
  from navigate_loop_integer [OF n bound this]
  obtain k where k: "k \<le> nat (n - 1)" "r = goto b (goto_calls w + k) url"
    "goto_calls w' = goto_calls w + k + 1"
    "\<forall>j<k. isl (goto b (goto_calls w + j) url)"
    "if isl r then x = ThrowInLoop \<and> k = nat (n - 1) else x = ReturnInLoop"
    by blast
  from k(5) have exit: "x \<noteq> ThrowAfterLoop"
    by (auto split: if_splits)
  from n k(1) have "k < nat n" by simp
  moreover from n k(5) have "if isl r then x = ThrowInLoop \<and> k = nat n - 1 else x = ReturnInLoop"
    by (auto simp: nat_diff_distrib split: if_splits)
  ultimately show ?thesis
    using exit k(2,3,4) by blast
qed

theorem navigateWithRetry_integer_attempts_witness:
  "(1 :: int) \<le> 3 \<and> (3 :: int) \<le> 2 ^ 53
   \<and> navigateWithRetry (healthy\<lparr>goto := scripted [Inl timeout_error]\<rparr>) example_url (of_int 3) world0
       = (Inl timeout_error, ThrowInLoop,
          \<lparr>goto_calls = 3,
           trace = [Goto example_url, ConsoleLog (NavigationAttemptFailed 1),
                    Goto example_url, ConsoleLog (NavigationAttemptFailed 2),
                    Goto example_url]\<rparr>)
   \<and> ThrowInLoop \<noteq> ThrowAfterLoop
   \<and> (\<exists>k<nat 3. Inl timeout_error
           = goto (healthy\<lparr>goto := scripted [Inl timeout_error]\<rparr>) (goto_calls world0 + k) example_url)"
proof -
  let ?b = "healthy\<lparr>goto := scripted [Inl timeout_error]\<rparr>"
  have le: "(1 :: int) \<le> 3" by simp
  have bound: "(3 :: int) \<le> 2 ^ 53" by simp
  have run: "navigateWithRetry ?b example_url (of_int 3) world0
       = (Inl timeout_error, ThrowInLoop,
          \<lparr>goto_calls = 3,
           trace = [Goto example_url, ConsoleLog (NavigationAttemptFailed 1),
                    Goto example_url, ConsoleLog (NavigationAttemptFailed 2),
                    Goto example_url]\<rparr>)"
    by (simp add: navigateWithRetry_def navigate_loop.simps [of _ _ _ 1]
        navigate_loop.simps [of _ _ _ 2] navigate_loop.simps [of _ _ _ 3]
        increment_def emit_def world0_def Let_def)
  from navigateWithRetry_integer_attempts [OF le bound run] le bound run show ?thesis
    by blast
qed

text \<open>
  C10 as stated fails for a count that is not an integer. With \<^verbatim>\<open>attempts = 1.5\<close>
  the first attempt is not the last (\<^verbatim>\<open>1 === 1.5\<close> is false), the second is never
  made (\<^verbatim>\<open>2 <= 1.5\<close> is false), and the statement after the loop throws: the
  recorded error when it is an \<^verbatim>\<open>Error\<close>, and otherwise a new
  \<^verbatim>\<open>Error("Navigation failed")\<close>, which is not the value the attempt threw.
\<close>

theorem navigateWithRetry_fractional_counterexample:
  "(1 :: rat) \<le> 3 / 2
   \<and> navigateWithRetry (healthy\<lparr>goto := scripted [Inl timeout_error]\<rparr>) example_url (3 / 2) world0
       = (Inl timeout_error, ThrowAfterLoop,
          \<lparr>goto_calls = 1,
           trace = [Goto example_url, ConsoleLog (NavigationAttemptFailed 1)]\<rparr>)
   \<and> goto (healthy\<lparr>goto := scripted [Inl NonErrorValue]\<rparr>) 0 example_url = Inl NonErrorValue
   \<and> navigateWithRetry (healthy\<lparr>goto := scripted [Inl NonErrorValue]\<rparr>) example_url (3 / 2) world0
       = (Inl (ErrorObject ''Navigation failed''), ThrowAfterLoop,
          \<lparr>goto_calls = 1,
           trace = [Goto example_url, ConsoleLog (NavigationAttemptFailed 1)]\<rparr>)"
  by (simp add: navigateWithRetry_def navigate_loop.simps [of _ _ _ 1]
      navigate_loop.simps [of _ _ _ 2] increment_def emit_def world0_def timeout_error_def
      Let_def)

lemma navigate_outcome:
  "fst (navigateWithRetry b url 2 w) =
     (case goto b (goto_calls w) url of
        Inr r \<Rightarrow> Inr r
      | Inl e \<Rightarrow> goto b (goto_calls w + 1) url)"
  by (simp add: navigate_twice split: sum.splits)

lemma navigate_same_calls:
  "goto_calls w' = goto_calls w \<Longrightarrow>
     fst (navigateWithRetry b url 2 w') = fst (navigateWithRetry b url 2 w)"
  by (simp add: navigate_outcome split: sum.splits)

lemma navigate_trace:
  "\<exists>steps. Close \<notin> set steps \<and> Evaluate \<notin> set steps
      \<and> trace (snd (snd (navigateWithRetry b url 2 w))) = trace w @ steps"
  by (simp add: navigate_twice split: sum.splits)

subsection \<open>White space\<close>

lemma SP_isWhiteSpace: "isWhiteSpace SP"
  by (simp add: isWhiteSpace_def SP_def)

lemma adjacent_ws_Cons:
  "adjacent_ws (a # xs) \<longleftrightarrow>
     (isWhiteSpace a \<and> xs \<noteq> [] \<and> isWhiteSpace (hd xs)) \<or> adjacent_ws xs"
  by (cases xs) auto

lemma adjacent_ws_append:
  "\<not> adjacent_ws (xs @ ys) \<Longrightarrow> \<not> adjacent_ws xs \<and> \<not> adjacent_ws ys"
  by (induction xs) (auto simp: adjacent_ws_Cons)

lemma replace_ws_head:
  "replace_ws s \<noteq> [] \<Longrightarrow> isWhiteSpace (hd (replace_ws s)) \<Longrightarrow> s \<noteq> [] \<and> isWhiteSpace (hd s)"
  by (cases s) (auto split: if_splits)

lemma replace_ws_no_adjacent: "\<not> adjacent_ws (replace_ws s)"
proof (induction s rule: replace_ws.induct)
  case 1
  show ?case by simp
next
  case (2 c cs)
  show ?case
  proof (cases "isWhiteSpace c")
    case True
    let ?t = "dropWhile isWhiteSpace cs"
    from True 2 have ih: "\<not> adjacent_ws (replace_ws ?t)" by simp
    have "\<not> (replace_ws ?t \<noteq> [] \<and> isWhiteSpace (hd (replace_ws ?t)))"
      using replace_ws_head [of ?t] hd_dropWhile [of isWhiteSpace cs] by blast
    with True ih show ?thesis
      by (simp add: adjacent_ws_Cons)
  next
    case False
    with 2 show ?thesis by (simp add: adjacent_ws_Cons)
  qed
qed

lemma replace_ws_only_spaces: "list_all (\<lambda>c. isWhiteSpace c \<longrightarrow> c = SP) (replace_ws s)"
  by (induction s rule: replace_ws.induct) auto

lemma trim_split: "\<exists>pre post. s = pre @ trim s @ post"
proof -
  let ?y = "dropWhile isWhiteSpace s"
  have "rev (takeWhile isWhiteSpace (rev ?y) @ dropWhile isWhiteSpace (rev ?y))
      = rev (dropWhile isWhiteSpace (rev ?y)) @ rev (takeWhile isWhiteSpace (rev ?y))"
    by (rule rev_append)
  then have "rev (rev ?y) = trim s @ rev (takeWhile isWhiteSpace (rev ?y))"
    unfolding takeWhile_dropWhile_id trim_def .
  then have y: "?y = trim s @ rev (takeWhile isWhiteSpace (rev ?y))"
    by (simp only: rev_rev_ident)
  have "s = takeWhile isWhiteSpace s @ ?y"
    by (rule takeWhile_dropWhile_id [symmetric])
  with y have "s = takeWhile isWhiteSpace s @ trim s @ rev (takeWhile isWhiteSpace (rev ?y))"
    by (simp only:)
  then show ?thesis by blast
qed

lemma trim_ends:
  "trim s \<noteq> [] \<Longrightarrow> \<not> isWhiteSpace (hd (trim s)) \<and> \<not> isWhiteSpace (last (trim s))"
proof -
  assume ne: "trim s \<noteq> []"
  let ?y = "dropWhile isWhiteSpace s"
  let ?z = "dropWhile isWhiteSpace (rev ?y)"
  from ne have z: "?z \<noteq> []" unfolding trim_def by (simp only: rev_is_Nil_conv not_False_eq_True)
  have ry: "rev ?y \<noteq> []"
  proof
    assume "rev ?y = []"
    then have "?z = []" by (simp only: dropWhile.simps)
    with z show False by contradiction
  qed
  then have y: "?y \<noteq> []" by (simp only: rev_is_Nil_conv not_False_eq_True)
  from z have hz: "\<not> isWhiteSpace (hd ?z)" by (rule hd_dropWhile)
  have "last (trim s) = hd ?z"
    unfolding trim_def by (rule last_rev)
  with hz have l: "\<not> isWhiteSpace (last (trim s))" by simp
  have "rev ?y = takeWhile isWhiteSpace (rev ?y) @ ?z"
    by (rule takeWhile_dropWhile_id [symmetric])
  then have "last (rev ?y) = last (takeWhile isWhiteSpace (rev ?y) @ ?z)"
    by (rule arg_cong)
  also from z have "\<dots> = last ?z" by (rule last_appendR)
  finally have lz: "last ?z = last (rev ?y)" by (rule sym)
  have "hd (trim s) = last ?z"
    unfolding trim_def by (rule hd_rev)
  also note lz
  also have "last (rev ?y) = hd ?y" by (rule last_rev)
  finally have "hd (trim s) = hd ?y" .
  moreover from y have "\<not> isWhiteSpace (hd ?y)" by (rule hd_dropWhile)
  ultimately have "\<not> isWhiteSpace (hd (trim s))" by simp
  with l show ?thesis by simp
qed

lemma sanitize_normalized: "whitespace_normalized (sanitize v)"
proof -
  define r where "r = replace_ws (case v of None \<Rightarrow> [] | Some s \<Rightarrow> s)"
  define t where "t = trim r"
  obtain pre post where split: "r = pre @ t @ post"
    unfolding t_def using trim_split by blast
  have "\<not> adjacent_ws r" unfolding r_def by (rule replace_ws_no_adjacent)
  then have "\<not> adjacent_ws (pre @ t @ post)" unfolding split .
  then have "\<not> adjacent_ws (t @ post)" using adjacent_ws_append by blast
  then have a: "\<not> adjacent_ws t" using adjacent_ws_append by blast
  have "list_all (\<lambda>c. isWhiteSpace c \<longrightarrow> c = SP) r"
    unfolding r_def by (rule replace_ws_only_spaces)
  then have "list_all (\<lambda>c. isWhiteSpace c \<longrightarrow> c = SP) (pre @ t @ post)"
    unfolding split .
  then have b: "list_all (\<lambda>c. isWhiteSpace c \<longrightarrow> c = SP) t"
    by (simp only: list_all_append)
  have san: "sanitize v = t"
    by (simp only: sanitize_def t_def r_def)
  show ?thesis
  proof (cases t)
    case Nil
    then show ?thesis by (simp add: whitespace_normalized_def san)
  next
    case (Cons c cs)
    with trim_ends [of r] have "\<not> isWhiteSpace c" "\<not> isWhiteSpace (last (c # cs))"
      unfolding t_def [symmetric] by simp_all
    with a b Cons show ?thesis
      unfolding whitespace_normalized_def san by simp
  qed
qed

declare ws_words.simps [simp del]

lemma replace_ws_words_prefix:
  "\<forall>x\<in>set xs. \<not> isWhiteSpace x \<Longrightarrow> replace_ws (xs @ ys) = xs @ replace_ws ys"
  by (induction xs) auto

lemma replace_ws_dropWhile:
  "dropWhile isWhiteSpace (replace_ws s) = replace_ws (dropWhile isWhiteSpace s)"
  by (induction s rule: replace_ws.induct) (auto simp: SP_isWhiteSpace)

lemma trimEnd_Nil: "trimEnd [] = []"
  by (simp add: trimEnd_def)

lemma trimEnd_append:
  "trimEnd (xs @ ys) = (if trimEnd ys = [] then trimEnd xs else xs @ trimEnd ys)"
  by (auto simp: trimEnd_def dropWhile_append)

lemma trimEnd_word: "xs \<noteq> [] \<Longrightarrow> \<not> isWhiteSpace (last xs) \<Longrightarrow> trimEnd xs = xs"
  by (cases xs rule: rev_cases) (auto simp: trimEnd_def)

lemma trimEnd_SP: "trimEnd (SP # zs) = (if trimEnd zs = [] then [] else SP # trimEnd zs)"
  using trimEnd_append [of "[SP]" zs] by (simp add: trimEnd_def SP_isWhiteSpace)

lemma ws_words_Nil: "dropWhile isWhiteSpace s = [] \<Longrightarrow> ws_words s = []"
  by (subst ws_words.simps) (simp only: list.case)

lemma ws_words_Cons:
  "dropWhile isWhiteSpace s = c # cs \<Longrightarrow>
     ws_words s = takeWhile (\<lambda>x. \<not> isWhiteSpace x) (c # cs)
                    # ws_words (dropWhile (\<lambda>x. \<not> isWhiteSpace x) cs)"
  by (subst ws_words.simps) (simp only: list.case)

lemma ws_words_nonempty: "[] \<notin> set (ws_words s)"
proof (induction s rule: ws_words.induct)
  case (1 s)
  show ?case
  proof (cases "dropWhile isWhiteSpace s")
    case Nil
    then have "ws_words s = []" by (rule ws_words_Nil)
    then show ?thesis by simp
  next
    case (Cons c cs)
    with hd_dropWhile [of isWhiteSpace s] have "\<not> isWhiteSpace c" by simp
    moreover note ws_words_Cons [OF Cons] "1.IH" [OF Cons]
    ultimately show ?thesis by simp
  qed
qed

lemma join_sp_Nil: "[] \<notin> set ws \<Longrightarrow> join_sp ws = [] \<Longrightarrow> ws = []"
  by (induction ws rule: join_sp.induct) auto

lemma join_sp_Cons: "join_sp (w # ws) = (if ws = [] then w else w @ SP # join_sp ws)"
  by (cases ws) auto

lemma trimEnd_replace_ws:
  "trimEnd (replace_ws (dropWhile isWhiteSpace s)) = join_sp (ws_words s)"
proof (induction s rule: ws_words.induct)
  case (1 s)
  show ?case
  proof (cases "dropWhile isWhiteSpace s")
    case Nil
    then have "ws_words s = []" by (rule ws_words_Nil)
    with Nil show ?thesis by (simp only: replace_ws.simps trimEnd_Nil join_sp.simps)
  next
    case (Cons c cs)
    with hd_dropWhile [of isWhiteSpace s] have c: "\<not> isWhiteSpace c" by simp
    define word where "word = takeWhile (\<lambda>x. \<not> isWhiteSpace x) (c # cs)"
    define rest where "rest = dropWhile (\<lambda>x. \<not> isWhiteSpace x) cs"
    define q where "q = trimEnd (replace_ws (dropWhile isWhiteSpace rest))"
    from c have rest': "rest = dropWhile (\<lambda>x. \<not> isWhiteSpace x) (c # cs)"
      by (simp add: rest_def)
    have split: "c # cs = word @ rest"
      unfolding word_def rest' by simp
    have word: "\<forall>x\<in>set word. \<not> isWhiteSpace x"
      unfolding word_def by (auto dest: set_takeWhileD)
    from c have ne: "word \<noteq> []" by (simp add: word_def)
    with word have lw: "\<not> isWhiteSpace (last word)" by simp
    have words: "ws_words s = word # ws_words rest"
      unfolding word_def rest_def using Cons by (rule ws_words_Cons)
    have ih: "q = join_sp (ws_words rest)"
      unfolding q_def rest_def using "1.IH" [OF Cons] .
    have R: "replace_ws (c # cs) = word @ replace_ws rest"
      unfolding split using word by (rule replace_ws_words_prefix)
    have tail: "trimEnd (replace_ws rest) = (if q = [] then [] else SP # q)"
    proof (cases rest)
      case Nil
      then show ?thesis by (simp add: q_def trimEnd_Nil)
    next
      case rc: (Cons r rs)
      then have "rest \<noteq> []" by simp
      then have "\<not> (\<lambda>x. \<not> isWhiteSpace x) (hd rest)"
        unfolding rest_def by (rule hd_dropWhile)
      with rc have "isWhiteSpace r" by simp
      with rc show ?thesis by (simp add: trimEnd_SP q_def)
    qed
    have "trimEnd (replace_ws (c # cs)) = (if q = [] then word else word @ SP # q)"
      unfolding R by (simp add: trimEnd_append tail trimEnd_word [OF ne lw])
    also have "\<dots> = join_sp (word # ws_words rest)"
      using join_sp_Nil [OF ws_words_nonempty, of rest] ih
      by (auto simp: join_sp_Cons)
    finally show ?thesis
      unfolding Cons words .
  qed
qed

lemma sanitize_collapse: "sanitize (Some s) = collapse s"
proof -
  have "trim (replace_ws s) = trimEnd (replace_ws (dropWhile isWhiteSpace s))"
    by (simp add: trim_def trimEnd_def replace_ws_dropWhile)
  then show ?thesis
    by (simp add: sanitize_def collapse_def trimEnd_replace_ws)
qed

lemma sanitize_None: "sanitize None = []"
  by (simp add: sanitize_def trim_def)

lemma collapse_Nil: "collapse [] = []"
  by (simp add: collapse_def ws_words_Nil)

subsection \<open>The page extractor\<close>

lemma with_instance_outcome:
  "fst (with_instance b url w) =
     (case newContext b of
        Some e \<Rightarrow> Inl e
      | None \<Rightarrow>
         (case newPage b of
            Some e \<Rightarrow> Inl e
          | None \<Rightarrow>
             (case fst (navigateWithRetry b url 2 w) of
                Inl e \<Rightarrow> Inl e
              | Inr response \<Rightarrow>
                 (case evaluate b of
                    Inl e \<Rightarrow> Inl e
                  | Inr d \<Rightarrow> Inr (page_response (evaluate_callback d) response)))))"
proof (cases "newContext b")
  case (Some e)
  then show ?thesis by (simp add: with_instance_def Let_def)
next
  case nc: None
  show ?thesis
  proof (cases "newPage b")
    case (Some e)
    with nc show ?thesis by (simp add: with_instance_def Let_def)
  next
    case np: None
    let ?w3 = "emit NewPage (emit NewContext w)"
    obtain r x w4 where nav: "navigateWithRetry b url 2 ?w3 = (r, x, w4)"
      by (cases "navigateWithRetry b url 2 ?w3") auto
    have "fst (navigateWithRetry b url 2 ?w3) = fst (navigateWithRetry b url 2 w)"
      by (rule navigate_same_calls) (simp add: emit_def)
    with nav have r: "fst (navigateWithRetry b url 2 w) = r" by simp
    show ?thesis using nc np nav r
      by (cases r; cases "evaluate b") (simp_all add: with_instance_def Let_def)
  qed
qed

lemma extract_outcome:
  "fst (extractPageMetadata b url w) =
     (case launch b of Some e \<Rightarrow> Inl e | None \<Rightarrow> fst (with_instance b url w))"
proof -
  have "fst (navigateWithRetry b url 2 (emit Launch w)) = fst (navigateWithRetry b url 2 w)"
    by (rule navigate_same_calls) (simp add: emit_def)
  then have "fst (with_instance b url (emit Launch w)) = fst (with_instance b url w)"
    by (simp add: with_instance_outcome split: option.splits)
  then show ?thesis
    by (auto simp: extractPageMetadata_def try_block_def Let_def split: option.splits prod.splits)
qed

lemma with_instance_trace:
  "\<exists>steps. Close \<notin> set steps \<and> trace (snd (with_instance b url w)) = trace w @ steps"
proof (cases "newContext b")
  case (Some e)
  then show ?thesis by (simp add: with_instance_def Let_def emit_def)
next
  case nc: None
  show ?thesis
  proof (cases "newPage b")
    case (Some e)
    with nc show ?thesis by (simp add: with_instance_def Let_def emit_def)
  next
    case np: None
    let ?w3 = "emit NewPage (emit NewContext w)"
    obtain r x w4 where nav: "navigateWithRetry b url 2 ?w3 = (r, x, w4)"
      by (cases "navigateWithRetry b url 2 ?w3") auto
    from navigate_trace [of b url ?w3] nav
    obtain steps where steps: "Close \<notin> set steps" "trace w4 = trace w @ [NewContext, NewPage] @ steps"
      by (auto simp: emit_def)
    show ?thesis using nc np nav steps
      by (cases r; cases "evaluate b"; cases "waitForLoadState b")
        (simp_all add: with_instance_def Let_def emit_def)
  qed
qed

lemma extract_trace:
  "\<exists>steps. Close \<notin> set steps
     \<and> trace (snd (extractPageMetadata b url w)) =
         trace w @
         (case launch b of
            Some e \<Rightarrow> [Launch]
          | None \<Rightarrow>
              Launch # steps @ Close #
                (case close b of
                   None \<Rightarrow> []
                 | Some err \<Rightarrow> [ConsoleError (FailedToCloseBrowser err)]))"
proof (cases "launch b")
  case (Some e)
  then show ?thesis
    by (intro exI [of _ "[]"])
      (simp add: extractPageMetadata_def try_block_def finally_block_def emit_def Let_def)
next
  case None
  obtain r w' where run: "with_instance b url (emit Launch w) = (r, w')"
    by (cases "with_instance b url (emit Launch w)") auto
  from with_instance_trace [of b url "emit Launch w"] run
  obtain steps where steps: "Close \<notin> set steps" "trace w' = trace w @ Launch # steps"
    by (auto simp: emit_def)
  from None run steps show ?thesis
    by (cases "close b")
      (auto simp: extractPageMetadata_def try_block_def finally_block_def emit_def Let_def)
qed

text \<open>
  C3. On every exit path of \<^verbatim>\<open>extractPageMetadata\<close>, whatever any browser call does:
  when \<^verbatim>\<open>chromium.launch\<close> gave an instance, \<^verbatim>\<open>instance.close()\<close> is called exactly
  once, after every other browser call of the run and before the function returns or
  rethrows (only the log line of a failed close can follow it); when the launch itself
  failed there is no session, and none is released. The outcome of the function, result
  or error, is the same however \<^verbatim>\<open>close\<close> settles.
\<close>

theorem session_released_once:
  "count_list (trace (snd (extractPageMetadata b url world0))) Close
     = (if launch b = None then 1 else 0)
   \<and> (\<exists>steps. Close \<notin> set steps
        \<and> trace (snd (extractPageMetadata b url world0)) =
            (case launch b of
               Some e \<Rightarrow> [Launch]
             | None \<Rightarrow>
                 Launch # steps @ Close #
                   (case close b of
                      None \<Rightarrow> []
                    | Some err \<Rightarrow> [ConsoleError (FailedToCloseBrowser err)])))
   \<and> fst (extractPageMetadata (b\<lparr>close := c\<rparr>) url world0)
     = fst (extractPageMetadata b url world0)"
proof -
  from extract_trace [of b url world0]
  obtain steps where steps: "Close \<notin> set steps"
    "trace (snd (extractPageMetadata b url world0)) =
       (case launch b of
          Some e \<Rightarrow> [Launch]
        | None \<Rightarrow>
            Launch # steps @ Close #
              (case close b of
                 None \<Rightarrow> []
               | Some err \<Rightarrow> [ConsoleError (FailedToCloseBrowser err)]))"
    by (auto simp: world0_def)
  have once: "count_list (trace (snd (extractPageMetadata b url world0))) Close
     = (if launch b = None then 1 else 0)"
    using steps by (auto simp: count_list_0_iff split: option.splits)
  have same: "fst (extractPageMetadata (b\<lparr>close := c\<rparr>) url world0)
     = fst (extractPageMetadata b url world0)"
    by (simp add: extract_outcome with_instance_outcome navigate_outcome
        split: option.splits sum.splits)
  from once steps same show ?thesis by blast
qed

theorem session_released_once_witness:
  "extractPageMetadata
      (healthy\<lparr>goto := scripted [Inl timeout_error], close := Some NonErrorValue\<rparr>)
      example_url world0
     = (Inl timeout_error,
        \<lparr>goto_calls = 2,
         trace = [Launch, NewContext, NewPage, Goto example_url,
                  ConsoleLog (NavigationAttemptFailed 1), Goto example_url, Close,
                  ConsoleError (FailedToCloseBrowser NonErrorValue)]\<rparr>)
   \<and> count_list (trace (snd (extractPageMetadata
        (healthy\<lparr>goto := scripted [Inl timeout_error], close := Some NonErrorValue\<rparr>)
        example_url world0))) Close = 1
   \<and> fst (extractPageMetadata (healthy\<lparr>goto := scripted [Inl timeout_error]\<rparr>) example_url world0)
       = Inl timeout_error
   \<and> count_list (trace (snd (extractPageMetadata
        (healthy\<lparr>launch := Some timeout_error\<rparr>) example_url world0))) Close = 0"
proof -
  let ?b = "healthy\<lparr>goto := scripted [Inl timeout_error]\<rparr>"
  have run: "extractPageMetadata (?b\<lparr>close := Some NonErrorValue\<rparr>) example_url world0
     = (Inl timeout_error,
        \<lparr>goto_calls = 2,
         trace = [Launch, NewContext, NewPage, Goto example_url,
                  ConsoleLog (NavigationAttemptFailed 1), Goto example_url, Close,
                  ConsoleError (FailedToCloseBrowser NonErrorValue)]\<rparr>)"
    by (simp add: extractPageMetadata_def try_block_def finally_block_def with_instance_def
        navigate_twice healthy_def emit_def world0_def Let_def)
  from session_released_once [of ?b example_url "Some NonErrorValue"]
    session_released_once [of "?b\<lparr>close := Some NonErrorValue\<rparr>" example_url None]
    session_released_once [of "healthy\<lparr>launch := Some timeout_error\<rparr>" example_url None]
    run
  show ?thesis by (simp add: healthy_def)
qed

lemma extract_success:
  "launch b = None \<Longrightarrow> newContext b = None \<Longrightarrow> newPage b = None \<Longrightarrow>
   fst (navigateWithRetry b url 2 world0) = Inr response \<Longrightarrow> evaluate b = Inr d \<Longrightarrow>
     fst (extractPageMetadata b url world0) = Inr (page_response (evaluate_callback d) response)"
  by (simp add: extract_outcome with_instance_outcome)

lemma extract_success_only:
  "fst (extractPageMetadata b url w) = Inr m \<Longrightarrow>
     \<exists>d response. evaluate b = Inr d \<and> m = page_response (evaluate_callback d) response"
  by (auto simp: extract_outcome with_instance_outcome split: option.splits sum.splits)

text \<open>
  C5. When the wait for network idle is rejected (its timeout, or any other error) and
  the other steps succeed, \<^verbatim>\<open>extractPageMetadata\<close> does not fail: it logs one line,
  goes on to \<^verbatim>\<open>page.evaluate\<close> and returns the record built from the document as it
  is then and from the navigation response; the outcome is the one of the same run with
  a wait that succeeds.
\<close>

theorem quiescence_timeout_tolerated:
  "launch b = None \<Longrightarrow> newContext b = None \<Longrightarrow> newPage b = None \<Longrightarrow>
   fst (navigateWithRetry b url 2 world0) = Inr response \<Longrightarrow> evaluate b = Inr d \<Longrightarrow>
   waitForLoadState b = Some e \<Longrightarrow>
     fst (extractPageMetadata b url world0) = Inr (page_response (evaluate_callback d) response)
     \<and> fst (extractPageMetadata b url world0)
       = fst (extractPageMetadata (b\<lparr>waitForLoadState := None\<rparr>) url world0)
     \<and> (\<exists>before after. trace (snd (extractPageMetadata b url world0))
           = before @ [WaitForLoadState, ConsoleLog NetworkIdleTimeout, Evaluate] @ after)"
proof -
  assume ok: "launch b = None" "newContext b = None" "newPage b = None"
    "fst (navigateWithRetry b url 2 world0) = Inr response" "evaluate b = Inr d"
    and wait: "waitForLoadState b = Some e"
  from ok have res: "fst (extractPageMetadata b url world0)
      = Inr (page_response (evaluate_callback d) response)"
    by (rule extract_success)
  have same: "fst (extractPageMetadata b url world0)
       = fst (extractPageMetadata (b\<lparr>waitForLoadState := None\<rparr>) url world0)"
    by (simp add: extract_outcome with_instance_outcome navigate_outcome
        split: option.splits sum.splits)
  let ?w3 = "emit NewPage (emit NewContext (emit Launch world0))"
  obtain r x w4 where nav: "navigateWithRetry b url 2 ?w3 = (r, x, w4)"
    by (cases "navigateWithRetry b url 2 ?w3") auto
  have "fst (navigateWithRetry b url 2 ?w3) = fst (navigateWithRetry b url 2 world0)"
    by (rule navigate_same_calls) (simp add: emit_def)
  with nav ok(4) have r: "r = Inr response" by simp
  have "trace (snd (extractPageMetadata b url world0))
      = trace w4 @ [WaitForLoadState, ConsoleLog NetworkIdleTimeout, Evaluate]
          @ Close # (case close b of None \<Rightarrow> []
                     | Some err \<Rightarrow> [ConsoleError (FailedToCloseBrowser err)])"
    using ok wait nav r
    by (cases "close b")
      (simp_all add: extractPageMetadata_def try_block_def finally_block_def with_instance_def
        emit_def Let_def)
  then have "\<exists>before after. trace (snd (extractPageMetadata b url world0))
           = before @ [WaitForLoadState, ConsoleLog NetworkIdleTimeout, Evaluate] @ after"
    by blast
  with res same show ?thesis by simp
qed

theorem quiescence_timeout_tolerated_witness:
  "launch (healthy\<lparr>waitForLoadState := Some timeout_error\<rparr>) = None
   \<and> waitForLoadState (healthy\<lparr>waitForLoadState := Some timeout_error\<rparr>) = Some timeout_error
   \<and> extractPageMetadata (healthy\<lparr>waitForLoadState := Some timeout_error\<rparr>) example_url world0
     = (Inr \<lparr>title = ascii ''Example'', metaDescription = ascii ''A test site'',
             h1 = ascii ''Welcome'', status = 200\<rparr>,
        \<lparr>goto_calls = 1,
         trace = [Launch, NewContext, NewPage, Goto example_url, WaitForLoadState,
                  ConsoleLog NetworkIdleTimeout, Evaluate, Close]\<rparr>)
   \<and> fst (extractPageMetadata (healthy\<lparr>waitForLoadState := Some timeout_error\<rparr>) example_url world0)
     = fst (extractPageMetadata healthy example_url world0)"
proof -
  let ?b = "healthy\<lparr>waitForLoadState := Some timeout_error\<rparr>"
  have pre: "launch ?b = None" "newContext ?b = None" "newPage ?b = None"
    "fst (navigateWithRetry ?b example_url 2 world0) = Inr (Some 200)"
    "evaluate ?b = Inr example_document" "waitForLoadState ?b = Some timeout_error"
    by (simp_all add: healthy_def navigate_outcome)
  have run: "extractPageMetadata ?b example_url world0
     = (Inr \<lparr>title = ascii ''Example'', metaDescription = ascii ''A test site'',
             h1 = ascii ''Welcome'', status = 200\<rparr>,
        \<lparr>goto_calls = 1,
         trace = [Launch, NewContext, NewPage, Goto example_url, WaitForLoadState,
                  ConsoleLog NetworkIdleTimeout, Evaluate, Close]\<rparr>)"
    by (simp add: extractPageMetadata_def try_block_def finally_block_def with_instance_def
        navigate_twice healthy_def emit_def world0_def Let_def page_response_def
        evaluate_callback_def example_document_def nullish_def optional_call_def
        sanitize_def trim_def ascii_def isWhiteSpace_def SP_def)
  have eq: "?b\<lparr>waitForLoadState := None\<rparr> = healthy"
    by (simp add: healthy_def)
  from quiescence_timeout_tolerated [OF pre]
  have "fst (extractPageMetadata ?b example_url world0)
       = fst (extractPageMetadata (?b\<lparr>waitForLoadState := None\<rparr>) example_url world0)"
    by blast
  then have same: "fst (extractPageMetadata ?b example_url world0)
       = fst (extractPageMetadata healthy example_url world0)"
    unfolding eq .
  from pre(1) pre(6) run same show ?thesis
    by blast
qed

text \<open>
  C7. Whenever \<^verbatim>\<open>extractPageMetadata\<close> returns a record, each of its three string
  fields is whitespace-normalized: it neither starts nor ends with white space, holds no
  two adjacent white-space code units, and its only white space is the single space.
  Each field is the \<open>collapse\<close> of what was read from the document: the words of that
  text joined by single spaces. A value that is absent (\<^verbatim>\<open>null\<close> or
  \<^verbatim>\<open>undefined\<close>, or no matching element) gives the empty string.
\<close>

theorem sanitized_fields:
  "extractPageMetadata b url world0 = (Inr m, w) \<Longrightarrow>
     whitespace_normalized (title m)
     \<and> whitespace_normalized (metaDescription m)
     \<and> whitespace_normalized (h1 m)
     \<and> (\<exists>d. evaluate b = Inr d
          \<and> title m = collapse (doc_title d)
          \<and> metaDescription m =
              collapse (case meta_name_description d of
                          Some (Some c) \<Rightarrow> c
                        | _ \<Rightarrow> (case meta_property_og_description d of
                                   Some (Some c) \<Rightarrow> c
                                 | _ \<Rightarrow> []))
          \<and> h1 m = collapse (case first_h1 d of Some (Some t) \<Rightarrow> t | _ \<Rightarrow> []))
     \<and> sanitize None = [] \<and> collapse [] = []"
proof -
  assume run: "extractPageMetadata b url world0 = (Inr m, w)"
  then have "fst (extractPageMetadata b url world0) = Inr m" by simp
  from extract_success_only [OF this]
  obtain d response where d: "evaluate b = Inr d"
    and m: "m = page_response (evaluate_callback d) response"
    by blast
  from m have norm: "whitespace_normalized (title m)" "whitespace_normalized (metaDescription m)"
    "whitespace_normalized (h1 m)"
    by (simp_all add: page_response_def sanitize_normalized)
  from m have t: "title m = collapse (doc_title d)"
    by (simp add: page_response_def evaluate_callback_def sanitize_collapse)
  from m have md: "metaDescription m =
              collapse (case meta_name_description d of
                          Some (Some c) \<Rightarrow> c
                        | _ \<Rightarrow> (case meta_property_og_description d of
                                   Some (Some c) \<Rightarrow> c
                                 | _ \<Rightarrow> []))"
    by (simp add: page_response_def evaluate_callback_def sanitize_collapse nullish_def
        optional_call_def split: option.splits)
  from m have h: "h1 m = collapse (case first_h1 d of Some (Some t) \<Rightarrow> t | _ \<Rightarrow> [])"
    by (simp add: page_response_def evaluate_callback_def sanitize_collapse nullish_def
        optional_call_def split: option.splits)
  from d t md h have "\<exists>d. evaluate b = Inr d
          \<and> title m = collapse (doc_title d)
          \<and> metaDescription m =
              collapse (case meta_name_description d of
                          Some (Some c) \<Rightarrow> c
                        | _ \<Rightarrow> (case meta_property_og_description d of
                                   Some (Some c) \<Rightarrow> c
                                 | _ \<Rightarrow> []))
          \<and> h1 m = collapse (case first_h1 d of Some (Some t) \<Rightarrow> t | _ \<Rightarrow> [])"
    by blast
  with norm sanitize_None collapse_Nil show ?thesis by blast
qed

theorem sanitized_fields_witness:
  "extractPageMetadata healthy example_url world0
     = (Inr \<lparr>title = ascii ''Example'', metaDescription = ascii ''A test site'',
             h1 = ascii ''Welcome'', status = 200\<rparr>,
        \<lparr>goto_calls = 1,
         trace = [Launch, NewContext, NewPage, Goto example_url, WaitForLoadState, Evaluate,
                  Close]\<rparr>)
   \<and> whitespace_normalized (ascii ''Example'')
   \<and> whitespace_normalized (ascii ''A test site'')
   \<and> whitespace_normalized (ascii ''Welcome'')
   \<and> ascii ''A test site'' = collapse (ascii ''  A   test site  '')"
proof -
  have run: "extractPageMetadata healthy example_url world0
     = (Inr \<lparr>title = ascii ''Example'', metaDescription = ascii ''A test site'',
             h1 = ascii ''Welcome'', status = 200\<rparr>,
        \<lparr>goto_calls = 1,
         trace = [Launch, NewContext, NewPage, Goto example_url, WaitForLoadState, Evaluate,
                  Close]\<rparr>)"
    by (simp add: extractPageMetadata_def try_block_def finally_block_def with_instance_def
        navigate_twice healthy_def emit_def world0_def Let_def page_response_def
        evaluate_callback_def example_document_def nullish_def optional_call_def
        sanitize_def trim_def ascii_def isWhiteSpace_def SP_def)
  have doc: "evaluate healthy = Inr example_document"
    by (simp add: healthy_def)
  from sanitized_fields [OF run] doc
  have "whitespace_normalized (ascii ''Example'')"
    "whitespace_normalized (ascii ''A test site'')"
    "whitespace_normalized (ascii ''Welcome'')"
    "ascii ''A test site'' = collapse (ascii ''  A   test site  '')"
    by (auto simp: example_document_def)
  with run show ?thesis by blast
qed

text \<open>
  C8. For a loaded document the fields are: the title from \<^verbatim>\<open>document.title\<close>; the
  description from the content of \<^verbatim>\<open>meta[name="description"]\<close>, from that of
  \<^verbatim>\<open>meta[property="og:description"]\<close> when the first gives nothing, and empty when
  neither gives anything; the heading from the text of the first \<^verbatim>\<open>h1\<close>, empty
  without one; each passed through \<^verbatim>\<open>sanitize\<close>. The status is the one the
  navigation response reports, and 200 when \<^verbatim>\<open>page.goto\<close> returned null. The scenario
  of the specification is the witness below.
\<close>

theorem extracted_fields:
  "launch b = None \<Longrightarrow> newContext b = None \<Longrightarrow> newPage b = None \<Longrightarrow>
   fst (navigateWithRetry b url 2 world0) = Inr response \<Longrightarrow> evaluate b = Inr d \<Longrightarrow>
     fst (extractPageMetadata b url world0) =
       Inr \<lparr>title = sanitize (Some (doc_title d)),
            metaDescription =
              sanitize (Some (case meta_name_description d of
                                Some (Some c) \<Rightarrow> c
                              | _ \<Rightarrow> (case meta_property_og_description d of
                                         Some (Some c) \<Rightarrow> c
                                       | _ \<Rightarrow> []))),
            h1 = sanitize (Some (case first_h1 d of Some (Some t) \<Rightarrow> t | _ \<Rightarrow> [])),
            status = (case response of Some s \<Rightarrow> s | None \<Rightarrow> 200)\<rparr>"
proof -
  assume ok: "launch b = None" "newContext b = None" "newPage b = None"
    "fst (navigateWithRetry b url 2 world0) = Inr response" "evaluate b = Inr d"
  have "page_response (evaluate_callback d) response =
       \<lparr>title = sanitize (Some (doc_title d)),
            metaDescription =
              sanitize (Some (case meta_name_description d of
                                Some (Some c) \<Rightarrow> c
                              | _ \<Rightarrow> (case meta_property_og_description d of
                                         Some (Some c) \<Rightarrow> c
                                       | _ \<Rightarrow> []))),
            h1 = sanitize (Some (case first_h1 d of Some (Some t) \<Rightarrow> t | _ \<Rightarrow> [])),
            status = (case response of Some s \<Rightarrow> s | None \<Rightarrow> 200)\<rparr>"
    by (simp add: page_response_def evaluate_callback_def nullish_def optional_call_def
        split: option.splits)
  with extract_success [OF ok] show ?thesis by simp
qed

theorem extracted_fields_witness:
  "launch healthy = None \<and> evaluate healthy = Inr example_document
   \<and> fst (navigateWithRetry healthy example_url 2 world0) = Inr (Some 200)
   \<and> fst (extractPageMetadata healthy example_url world0)
     = Inr \<lparr>title = ascii ''Example'', metaDescription = ascii ''A test site'',
            h1 = ascii ''Welcome'', status = 200\<rparr>"
proof -
  have pre: "launch healthy = None" "newContext healthy = None" "newPage healthy = None"
    "fst (navigateWithRetry healthy example_url 2 world0) = Inr (Some 200)"
    "evaluate healthy = Inr example_document"
    by (simp_all add: healthy_def navigate_outcome)
  have "fst (extractPageMetadata healthy example_url world0)
     = Inr \<lparr>title = ascii ''Example'', metaDescription = ascii ''A test site'',
            h1 = ascii ''Welcome'', status = 200\<rparr>"
    using extracted_fields [OF pre]
    by (simp add: example_document_def sanitize_def trim_def ascii_def isWhiteSpace_def SP_def)
  with pre show ?thesis by blast
qed

subsection \<open>The request handler\<close>

lemma GET_response:
  "u \<noteq> [] \<Longrightarrow> isValidHttpUrl URL u \<Longrightarrow>
     fst (GET URL b timer_first (Some u)) =
       (if timer_first then Some timeoutResponse
        else (case fst (extractPageMetadata b u world0) of
                Inr payload \<Rightarrow>
                  Some \<lparr>http_status = 200, body = Payload payload,
                        headers = [(''Cache-Control'',
                                    ''public, s-maxage=3600, stale-while-revalidate=86400'')]\<rparr>
              | Inl e \<Rightarrow>
                  Some \<lparr>http_status = 500, body = ErrorJson ''Unable to complete scrape'',
                        headers = []\<rparr>))"
proof -
  assume valid: "u \<noteq> []" "isValidHttpUrl URL u"
  obtain r w where run: "extractPageMetadata b u world0 = (r, w)"
    by (cases "extractPageMetadata b u world0") auto
  show ?thesis
    using valid run
    by (cases r; cases timer_first)
      (simp_all add: GET_def withTimeout_fired withTimeout_settled)
qed

text \<open>
  C6, as amended. What is invalid is decided by the \<^verbatim>\<open>URL\<close> constructor alone. When
  the \<^verbatim>\<open>url\<close> parameter is missing or empty, when the constructor rejects it, or when
  the protocol it parses is neither \<^verbatim>\<open>http:\<close> nor \<^verbatim>\<open>https:\<close>, \<^verbatim>\<open>GET\<close> answers
  400 with the body \<^verbatim>\<open>{ error: "Invalid URL" }\<close> and the run has no effect at all: no
  launch, no context, no page, no navigation. Every other request, that is every
  non-empty string the constructor accepts with one of the two protocols, is not answered
  with that response, and its run begins with the launch of the browser.
\<close>

theorem invalid_url_rejected:
  "(targetUrl = None \<or> targetUrl = Some []
      \<or> (\<exists>u. targetUrl = Some u
            \<and> (URL u = None
               \<or> (\<exists>p. URL u = Some p \<and> p \<noteq> ascii ''http:'' \<and> p \<noteq> ascii ''https:'')))
     \<longrightarrow> GET URL b timer_first targetUrl
          = (Some \<lparr>http_status = 400, body = ErrorJson ''Invalid URL'', headers = []\<rparr>, []))
   \<and> ((\<exists>u. targetUrl = Some u \<and> u \<noteq> []
            \<and> (URL u = Some (ascii ''http:'') \<or> URL u = Some (ascii ''https:'')))
     \<longrightarrow> (\<exists>rest. snd (GET URL b timer_first targetUrl) = Launch # rest)
         \<and> fst (GET URL b timer_first targetUrl)
             \<noteq> Some \<lparr>http_status = 400, body = ErrorJson ''Invalid URL'', headers = []\<rparr>)"
proof (intro conjI impI)
  assume "targetUrl = None \<or> targetUrl = Some []
      \<or> (\<exists>u. targetUrl = Some u
            \<and> (URL u = None
               \<or> (\<exists>p. URL u = Some p \<and> p \<noteq> ascii ''http:'' \<and> p \<noteq> ascii ''https:'')))"
  then show "GET URL b timer_first targetUrl
          = (Some \<lparr>http_status = 400, body = ErrorJson ''Invalid URL'', headers = []\<rparr>, [])"
    by (auto simp: GET_def isValidHttpUrl_def invalidUrlResponse_def split: option.splits)
next
  assume "\<exists>u. targetUrl = Some u \<and> u \<noteq> []
            \<and> (URL u = Some (ascii ''http:'') \<or> URL u = Some (ascii ''https:''))"
  then obtain u where u: "targetUrl = Some u" "u \<noteq> []"
    and valid: "isValidHttpUrl URL u"
    by (auto simp: isValidHttpUrl_def)
  obtain r w where run: "extractPageMetadata b u world0 = (r, w)"
    by (cases "extractPageMetadata b u world0") auto
  from extract_trace [of b u world0] run
  obtain steps where "trace w = Launch # steps"
    by (cases "launch b") (auto simp: world0_def)
  with u valid run show "\<exists>rest. snd (GET URL b timer_first targetUrl) = Launch # rest"
    by (cases r; cases timer_first)
      (simp_all add: GET_def withTimeout_fired withTimeout_settled)
  from GET_response [OF u(2) valid, of b timer_first] u(1)
  show "fst (GET URL b timer_first targetUrl)
      \<noteq> Some \<lparr>http_status = 400, body = ErrorJson ''Invalid URL'', headers = []\<rparr>"
    by (cases "fst (extractPageMetadata b u world0)")
      (simp_all add: timeoutResponse_def)
qed

theorem invalid_url_rejected_witness:
  "GET stub_URL healthy False None
     = (Some \<lparr>http_status = 400, body = ErrorJson ''Invalid URL'', headers = []\<rparr>, [])
   \<and> stub_URL (ascii ''not a url'') = None
   \<and> GET stub_URL healthy False (Some (ascii ''not a url''))
     = (Some \<lparr>http_status = 400, body = ErrorJson ''Invalid URL'', headers = []\<rparr>, [])
   \<and> stub_URL (ascii ''ftp://example.com'') = Some (ascii ''ftp:'')
   \<and> GET stub_URL healthy False (Some (ascii ''ftp://example.com''))
     = (Some \<lparr>http_status = 400, body = ErrorJson ''Invalid URL'', headers = []\<rparr>, [])
   \<and> stub_URL example_url = Some (ascii ''https:'')
   \<and> (\<exists>rest. snd (GET stub_URL healthy False (Some example_url)) = Launch # rest)
   \<and> fst (GET stub_URL healthy False (Some example_url))
       \<noteq> Some \<lparr>http_status = 400, body = ErrorJson ''Invalid URL'', headers = []\<rparr>"
proof -
  have a: "stub_URL (ascii ''not a url'') = None"
    by (simp add: stub_URL_def ascii_def)
  have b: "stub_URL (ascii ''ftp://example.com'') = Some (ascii ''ftp:'')"
    by (simp add: stub_URL_def ascii_def)
  have c: "ascii ''ftp:'' \<noteq> ascii ''http:''" "ascii ''ftp:'' \<noteq> ascii ''https:''"
    by (simp_all add: ascii_def)
  have d: "stub_URL example_url = Some (ascii ''https:'')" "example_url \<noteq> []"
    by (simp_all add: stub_URL_def example_url_def ascii_def)
  from invalid_url_rejected [of None stub_URL healthy False]
  have 1: "GET stub_URL healthy False None
     = (Some \<lparr>http_status = 400, body = ErrorJson ''Invalid URL'', headers = []\<rparr>, [])"
    by simp
  from invalid_url_rejected [of "Some (ascii ''not a url'')" stub_URL healthy False] a
  have 2: "GET stub_URL healthy False (Some (ascii ''not a url''))
     = (Some \<lparr>http_status = 400, body = ErrorJson ''Invalid URL'', headers = []\<rparr>, [])"
    by simp
  from invalid_url_rejected [of "Some (ascii ''ftp://example.com'')" stub_URL healthy False] b c
  have 3: "GET stub_URL healthy False (Some (ascii ''ftp://example.com''))
     = (Some \<lparr>http_status = 400, body = ErrorJson ''Invalid URL'', headers = []\<rparr>, [])"
    by simp
  from invalid_url_rejected [of "Some example_url" stub_URL healthy False] d
  have 4: "\<exists>rest. snd (GET stub_URL healthy False (Some example_url)) = Launch # rest"
    "fst (GET stub_URL healthy False (Some example_url))
       \<noteq> Some \<lparr>http_status = 400, body = ErrorJson ''Invalid URL'', headers = []\<rparr>"
    by simp_all
  from 1 2 3 4 a b d(1) show ?thesis by blast
qed

text \<open>
  C6 as stated fails, because the constructor accepts strings that are not syntactically
  valid URLs. \<^verbatim>\<open>http:example.com\<close> lacks the \<^verbatim>\<open>//\<close> after the scheme, and
  \<^verbatim>\<open>"  HTTP://EXAMPLE.COM/a b"\<close> starts with spaces and has a space in its path; the
  parser repairs both and reports the protocol \<^verbatim>\<open>http:\<close>, so \<^verbatim>\<open>GET\<close> launches the
  browser and navigates to the string as it was given.
\<close>

theorem lenient_constructor_counterexample:
  "take 2 (drop 5 (ascii ''http:example.com'')) \<noteq> ascii ''//''
   \<and> stub_URL (ascii ''http:example.com'') = Some (ascii ''http:'')
   \<and> GET stub_URL healthy False (Some (ascii ''http:example.com''))
     = (Some \<lparr>http_status = 200,
              body = Payload \<lparr>title = ascii ''Example'', metaDescription = ascii ''A test site'',
                              h1 = ascii ''Welcome'', status = 200\<rparr>,
              headers = [(''Cache-Control'',
                          ''public, s-maxage=3600, stale-while-revalidate=86400'')]\<rparr>,
        [Launch, NewContext, NewPage, Goto (ascii ''http:example.com''), WaitForLoadState,
         Evaluate, Close, ConsoleLog (SuccessfullyScraped (ascii ''http:example.com''))])
   \<and> hd (ascii ''  HTTP://EXAMPLE.COM/a b'') = SP
   \<and> stub_URL (ascii ''  HTTP://EXAMPLE.COM/a b'') = Some (ascii ''http:'')
   \<and> snd (GET stub_URL healthy False (Some (ascii ''  HTTP://EXAMPLE.COM/a b'')))
     = [Launch, NewContext, NewPage, Goto (ascii ''  HTTP://EXAMPLE.COM/a b''),
        WaitForLoadState, Evaluate, Close,
        ConsoleLog (SuccessfullyScraped (ascii ''  HTTP://EXAMPLE.COM/a b''))]"
  by (simp add: GET_def isValidHttpUrl_def stub_URL_def ascii_def SP_def
      extractPageMetadata_def try_block_def finally_block_def with_instance_def
      navigate_twice healthy_def emit_def world0_def Let_def withTimeout_settled
      page_response_def evaluate_callback_def example_document_def nullish_def
      optional_call_def sanitize_def trim_def isWhiteSpace_def)

text \<open>
  C4, as amended. The page extractor classifies nothing: a failure of
  \<^verbatim>\<open>chromium.launch\<close>, \<^verbatim>\<open>newContext\<close> or \<^verbatim>\<open>newPage\<close>, and the error of the last
  navigation attempt, each reach the handler as the very value that was thrown. For a
  valid URL the handler has three branches, told apart by the status: 504 with
  \<^verbatim>\<open>Timeout\<close> when the timer fires first, 200 with the record when the extraction
  returns, and 500 with one fixed body for every error the extraction throws, whatever
  the error and its message.
\<close>

theorem outcome_branches:
  "u \<noteq> [] \<Longrightarrow> isValidHttpUrl URL u \<Longrightarrow>
     fst (GET URL b timer_first (Some u)) =
       (if timer_first
        then Some \<lparr>http_status = 504, body = ErrorJson ''Timeout'', headers = []\<rparr>
        else (case fst (extractPageMetadata b u world0) of
                Inr payload \<Rightarrow>
                  Some \<lparr>http_status = 200, body = Payload payload,
                        headers = [(''Cache-Control'',
                                    ''public, s-maxage=3600, stale-while-revalidate=86400'')]\<rparr>
              | Inl e \<Rightarrow>
                  Some \<lparr>http_status = 500, body = ErrorJson ''Unable to complete scrape'',
                        headers = []\<rparr>))
     \<and> (launch b = Some e \<longrightarrow> fst (extractPageMetadata b u world0) = Inl e)
     \<and> (launch b = None \<and> newContext b = Some e \<longrightarrow>
          fst (extractPageMetadata b u world0) = Inl e)
     \<and> (launch b = None \<and> newContext b = None \<and> newPage b = Some e \<longrightarrow>
          fst (extractPageMetadata b u world0) = Inl e)
     \<and> (launch b = None \<and> newContext b = None \<and> newPage b = None
          \<and> goto b 0 u = Inl e' \<and> goto b 1 u = Inl e \<longrightarrow>
          fst (extractPageMetadata b u world0) = Inl e)"
proof -
  assume valid: "u \<noteq> []" "isValidHttpUrl URL u"
  have acquire: "launch b = Some e \<longrightarrow> fst (extractPageMetadata b u world0) = Inl e"
    "launch b = None \<and> newContext b = Some e \<longrightarrow> fst (extractPageMetadata b u world0) = Inl e"
    "launch b = None \<and> newContext b = None \<and> newPage b = Some e \<longrightarrow>
       fst (extractPageMetadata b u world0) = Inl e"
    by (simp_all add: extract_outcome with_instance_outcome)
  have navigate: "launch b = None \<and> newContext b = None \<and> newPage b = None
          \<and> goto b 0 u = Inl e' \<and> goto b 1 u = Inl e \<longrightarrow>
          fst (extractPageMetadata b u world0) = Inl e"
    by (simp add: extract_outcome with_instance_outcome navigate_outcome world0_def)
  from GET_response [OF valid, of b timer_first] acquire navigate show ?thesis
    by (simp add: timeoutResponse_def)
qed

theorem outcome_branches_witness:
  "example_url \<noteq> [] \<and> isValidHttpUrl stub_URL example_url
   \<and> fst (GET stub_URL healthy True (Some example_url))
     = Some \<lparr>http_status = 504, body = ErrorJson ''Timeout'', headers = []\<rparr>
   \<and> fst (GET stub_URL healthy False (Some example_url))
     = Some \<lparr>http_status = 200,
             body = Payload \<lparr>title = ascii ''Example'', metaDescription = ascii ''A test site'',
                             h1 = ascii ''Welcome'', status = 200\<rparr>,
             headers = [(''Cache-Control'',
                         ''public, s-maxage=3600, stale-while-revalidate=86400'')]\<rparr>
   \<and> fst (GET stub_URL (healthy\<lparr>goto := scripted [Inl NonErrorValue, Inl timeout_error]\<rparr>)
            False (Some example_url))
     = Some \<lparr>http_status = 500, body = ErrorJson ''Unable to complete scrape'', headers = []\<rparr>
   \<and> fst (extractPageMetadata (healthy\<lparr>goto := scripted [Inl NonErrorValue, Inl timeout_error]\<rparr>)
            example_url world0)
     = Inl timeout_error"
proof -
  let ?b = "healthy\<lparr>goto := scripted [Inl NonErrorValue, Inl timeout_error]\<rparr>"
  have valid: "example_url \<noteq> []" "isValidHttpUrl stub_URL example_url"
    by (simp_all add: isValidHttpUrl_def stub_URL_def example_url_def ascii_def)
  have ok: "fst (extractPageMetadata healthy example_url world0)
     = Inr \<lparr>title = ascii ''Example'', metaDescription = ascii ''A test site'',
             h1 = ascii ''Welcome'', status = 200\<rparr>"
    by (simp add: extract_outcome with_instance_outcome navigate_outcome healthy_def world0_def
        page_response_def evaluate_callback_def example_document_def nullish_def
        optional_call_def sanitize_def trim_def ascii_def isWhiteSpace_def SP_def)
  have pre: "launch ?b = None \<and> newContext ?b = None \<and> newPage ?b = None
      \<and> goto ?b 0 example_url = Inl NonErrorValue \<and> goto ?b 1 example_url = Inl timeout_error"
    by (simp add: healthy_def)
  from outcome_branches [OF valid, of ?b False timeout_error NonErrorValue] pre
  have failed: "fst (extractPageMetadata ?b example_url world0) = Inl timeout_error"
    "fst (GET stub_URL ?b False (Some example_url))
     = Some \<lparr>http_status = 500, body = ErrorJson ''Unable to complete scrape'', headers = []\<rparr>"
    by simp_all
  from outcome_branches [OF valid, of healthy True]
  have late: "fst (GET stub_URL healthy True (Some example_url))
     = Some \<lparr>http_status = 504, body = ErrorJson ''Timeout'', headers = []\<rparr>"
    by simp
  from outcome_branches [OF valid, of healthy False] ok
  have good: "fst (GET stub_URL healthy False (Some example_url))
     = Some \<lparr>http_status = 200,
             body = Payload \<lparr>title = ascii ''Example'', metaDescription = ascii ''A test site'',
                             h1 = ascii ''Welcome'', status = 200\<rparr>,
             headers = [(''Cache-Control'',
                         ''public, s-maxage=3600, stale-while-revalidate=86400'')]\<rparr>"
    by simp
  from valid late good failed show ?thesis by blast
qed

text \<open>
  C4 as stated fails: a run whose launch fails and a run whose two navigation attempts
  fail leave \<^verbatim>\<open>extractPageMetadata\<close> with the same outcome when the browser throws
  the same value (there is no tag for the kind of failure), and the handler answers both,
  and a failed \<^verbatim>\<open>page.evaluate\<close> too, with the same status and body.
\<close>

theorem failure_kinds_counterexample:
  "fst (extractPageMetadata (healthy\<lparr>launch := Some timeout_error\<rparr>) example_url world0)
     = Inl timeout_error
   \<and> fst (extractPageMetadata (healthy\<lparr>goto := scripted [Inl timeout_error]\<rparr>) example_url world0)
     = Inl timeout_error
   \<and> fst (GET stub_URL (healthy\<lparr>launch := Some timeout_error\<rparr>) False (Some example_url))
     = Some \<lparr>http_status = 500, body = ErrorJson ''Unable to complete scrape'', headers = []\<rparr>
   \<and> fst (GET stub_URL (healthy\<lparr>goto := scripted [Inl timeout_error]\<rparr>) False (Some example_url))
     = Some \<lparr>http_status = 500, body = ErrorJson ''Unable to complete scrape'', headers = []\<rparr>
   \<and> fst (GET stub_URL (healthy\<lparr>evaluate := Inl NonErrorValue\<rparr>) False (Some example_url))
     = Some \<lparr>http_status = 500, body = ErrorJson ''Unable to complete scrape'', headers = []\<rparr>"
proof -
  have valid: "example_url \<noteq> []" "isValidHttpUrl stub_URL example_url"
    by (simp_all add: isValidHttpUrl_def stub_URL_def example_url_def ascii_def)
  have a: "fst (extractPageMetadata (healthy\<lparr>launch := Some timeout_error\<rparr>) example_url world0)
     = Inl timeout_error"
    by (simp add: extract_outcome healthy_def)
  have b: "fst (extractPageMetadata (healthy\<lparr>goto := scripted [Inl timeout_error]\<rparr>) example_url world0)
     = Inl timeout_error"
    by (simp add: extract_outcome with_instance_outcome navigate_outcome healthy_def)
  have c: "fst (extractPageMetadata (healthy\<lparr>evaluate := Inl NonErrorValue\<rparr>) example_url world0)
     = Inl NonErrorValue"
    by (simp add: extract_outcome with_instance_outcome navigate_outcome healthy_def)
  from a b c show ?thesis
    by (simp add: GET_response [OF valid])
qed

end
